theory Spec2Isabelle
  imports Complex_Main "HOL-Library.AList" "HOL-Library.List_Lexorder" "HOL-Library.Char_ord"
begin

section \<open>Data model\<close>

text \<open>
  The module \<^verbatim>\<open>src/data/preprocessing.py\<close> transforms pandas data frames. A data frame
  is modelled column-wise, as pandas stores it: a row index (a list of labels) and an
  ordered association list from column names to columns. A column is either a numeric
  (float64) column or an object column of category strings; in both a missing value
  (NaN / None) is \<open>None\<close>. Numbers are exact reals: the model idealises IEEE
  arithmetic, every other aspect (column order, dtypes, row labels, missing values,
  raised exceptions) follows pandas and scikit-learn.

  The library calls of the source are modelled by their documented behaviour. The value
  the nearest-neighbour imputer computes for a missing cell is a parameter \<open>est\<close> of
  the model (its tie-breaking among equidistant neighbours is not specified by the
  library); \<open>knn_estimate\<close> below is the library's algorithm with ties broken by row
  order.

  The data frames are assumed well formed (\<open>wf_df\<close>): column names are distinct and
  every column has as many cells as the index has labels.
\<close>

datatype error = KeyError | ValueError | TypeError | NotFittedError

datatype column = NumCol "real option list" | ObjCol "string option list"

record dataframe =
  idx :: "int list"
  cols :: "(string \<times> column) list"

fun col_len :: "column \<Rightarrow> nat" where
  "col_len (NumCol xs) = length xs"
| "col_len (ObjCol ss) = length ss"

fun is_object :: "column \<Rightarrow> bool" where
  "is_object (NumCol xs) = False"
| "is_object (ObjCol ss) = True"

fun col_has_missing :: "column \<Rightarrow> bool" where
  "col_has_missing (NumCol xs) = (None \<in> set xs)"
| "col_has_missing (ObjCol ss) = (None \<in> set ss)"

definition colnames :: "dataframe \<Rightarrow> string list" where
  "colnames df = map fst (cols df)"

definition nrows :: "dataframe \<Rightarrow> nat" where
  "nrows df = length (idx df)"

definition wf_df :: "dataframe \<Rightarrow> bool" where
  "wf_df df = (distinct (colnames df) \<and> list_all (\<lambda>nc. col_len (snd nc) = nrows df) (cols df))"

definition has_missing :: "dataframe \<Rightarrow> bool" where
  "has_missing df = list_ex (\<lambda>nc. col_has_missing (snd nc)) (cols df)"

text \<open>Sequencing of steps that may raise: the first exception ends the computation.\<close>

definition bind_err :: "error + 'a \<Rightarrow> ('a \<Rightarrow> error + 'b) \<Rightarrow> error + 'b" where
  "bind_err r f = (case r of Inl e \<Rightarrow> Inl e | Inr x \<Rightarrow> f x)"

text \<open>\<^verbatim>\<open>RangeIndex(n)\<close>, the fresh positional index \<open>0, ..., n - 1\<close>.\<close>

definition range_index :: "nat \<Rightarrow> int list" where
  "range_index n = map int [0..<n]"

section \<open>knn_impute\<close>

subsection \<open>Temporary category codes\<close>

text \<open>
  \<^verbatim>\<open>df[col].astype('category')\<close>: the categories are the distinct observed (non-missing)
  values in sorted order; \<^verbatim>\<open>.cat.codes\<close> is the position of each value among the
  categories, and \<open>-1\<close> for a missing value.
\<close>

fun index_of :: "'a \<Rightarrow> 'a list \<Rightarrow> nat" where
  "index_of x [] = 0"
| "index_of x (y # ys) = (if x = y then 0 else Suc (index_of x ys))"

definition observed :: "'a option list \<Rightarrow> 'a list" where
  "observed xs = concat (map (\<lambda>v. case v of None \<Rightarrow> [] | Some x \<Rightarrow> [x]) xs)"

definition cat_categories :: "string option list \<Rightarrow> string list" where
  "cat_categories ss = sort (remdups (observed ss))"

definition cat_codes :: "string option list \<Rightarrow> int list" where
  "cat_codes ss =
     map (\<lambda>v. case v of None \<Rightarrow> - 1 | Some s \<Rightarrow> int (index_of s (cat_categories ss))) ss"

text \<open>
  First loop of \<open>knn_impute\<close>: every object column is replaced by its codes, numeric
  columns stay. The result is the all-numeric matrix handed to the imputer, column by
  column.
\<close>

fun encode_for_knn :: "column \<Rightarrow> real option list" where
  "encode_for_knn (NumCol xs) = xs"
| "encode_for_knn (ObjCol ss) = map (\<lambda>c. Some (real_of_int c)) (cat_codes ss)"

subsection \<open>The imputer\<close>

text \<open>
  \<^verbatim>\<open>KNNImputer(n_neighbors=k).fit_transform(M)\<close> on a matrix given by its columns, with
  \<open>n\<close> rows. It rejects \<open>k < 1\<close>, a matrix without rows and a matrix without columns
  (ValueError). Columns that are missing in every row are dropped from the result
  (\<^verbatim>\<open>keep_empty_features=False\<close>); in the other columns every present cell is kept and
  every missing cell is replaced by the estimate.
\<close>

type_synonym estimator = "nat \<Rightarrow> real option list list \<Rightarrow> nat \<Rightarrow> nat \<Rightarrow> real"

definition all_missing :: "'a option list \<Rightarrow> bool" where
  "all_missing xs = list_all (\<lambda>v. v = None) xs"

definition fill_column :: "estimator \<Rightarrow> nat \<Rightarrow> real option list list \<Rightarrow> nat \<Rightarrow> real list" where
  "fill_column est k M j =
     map (\<lambda>i. case M ! j ! i of Some v \<Rightarrow> v | None \<Rightarrow> est k M i j) [0..<length (M ! j)]"

definition knn_fit_transform ::
  "estimator \<Rightarrow> int \<Rightarrow> nat \<Rightarrow> real option list list \<Rightarrow> error + real list list" where
  "knn_fit_transform est k n M =
     (if k < 1 \<or> n = 0 \<or> M = [] then Inl ValueError
      else Inr (map (fill_column est (nat k) M)
                  (filter (\<lambda>j. \<not> all_missing (M ! j)) [0..<length M])))"

text \<open>
  The estimate of scikit-learn for the missing cell in row \<open>i\<close> of column \<open>j\<close>: the
  donors are the rows with a value in column \<open>j\<close>; the distance to a donor is the
  NaN-aware Euclidean distance (the squared differences over the coordinates present in
  both rows, scaled by the share of such coordinates; undefined when there is none); the
  estimate is the mean over the \<open>min k (number of donors)\<close> nearest donors, leaving out
  donors at undefined distance, and the mean of the column when every donor is at
  undefined distance. Distances are compared through their squares.
\<close>

definition nan_sqdist :: "real option list list \<Rightarrow> nat \<Rightarrow> nat \<Rightarrow> real option" where
  "nan_sqdist M i r =
     (let ds = concat (map (\<lambda>c. case (c ! i, c ! r) of
                               (Some x, Some y) \<Rightarrow> [(x - y) * (x - y)] | _ \<Rightarrow> []) M)
      in if ds = [] then None
         else Some (real (length M) / real (length ds) * sum_list ds))"

definition mean_list :: "real list \<Rightarrow> real" where
  "mean_list xs = sum_list xs / real (length xs)"

definition knn_estimate :: estimator where
  "knn_estimate k M i j =
     (let c = M ! j;
          donors = filter (\<lambda>r. c ! r \<noteq> None) [0..<length c];
          near = concat (map (\<lambda>r. case nan_sqdist M i r of
                                None \<Rightarrow> [] | Some d \<Rightarrow> [(d, the (c ! r))]) donors)
      in if near = [] then mean_list (observed c)
         else mean_list (map snd (take (min k (length donors)) (sort_key fst near))))"

subsection \<open>Mapping the codes back\<close>

text \<open>
  \<^verbatim>\<open>.round()\<close> rounds half to even; \<^verbatim>\<open>.astype(int)\<close> then converts the integral float.
  \<^verbatim>\<open>.map(dict(enumerate(categories)))\<close> looks the code up among the categories; a code
  that is not a key of the dictionary gives a missing value. With an empty dictionary
  (a column without any observed category) pandas returns a float64 column of NaN.
\<close>

definition np_round :: "real \<Rightarrow> int" where
  "np_round x =
     (let f = \<lfloor>x\<rfloor>; d = x - real_of_int f
      in if d < 1 / 2 then f else if 1 / 2 < d then f + 1 else if even f then f else f + 1)"

definition decode_codes :: "string list \<Rightarrow> real list \<Rightarrow> string option list" where
  "decode_codes cats xs =
     map (\<lambda>x. let c = np_round x
               in if 0 \<le> c \<and> nat c < length cats then Some (cats ! nat c) else None) xs"

fun restore_column :: "column \<Rightarrow> real list \<Rightarrow> column" where
  "restore_column (NumCol orig) xs = NumCol (map Some xs)"
| "restore_column (ObjCol ss) xs =
     (if cat_categories ss = [] then NumCol (map (\<lambda>x. None) xs)
      else ObjCol (decode_codes (cat_categories ss) xs))"

text \<open>
  \<^verbatim>\<open>pd.DataFrame(array, columns=df_encoded.columns)\<close> raises ValueError when the array has
  not one column per name, and otherwise builds a frame with a fresh positional index.
  The second loop of \<open>knn_impute\<close> then maps the codes of every object column of the
  input back to its categories.
\<close>

definition knn_impute :: "estimator \<Rightarrow> dataframe \<Rightarrow> int \<Rightarrow> error + dataframe" where
  "knn_impute est df n_neighbors =
     bind_err (knn_fit_transform est n_neighbors (nrows df) (map (\<lambda>nc. encode_for_knn (snd nc)) (cols df)))
       (\<lambda>arr. if length arr \<noteq> length (cols df) then Inl ValueError
               else Inr \<lparr>idx = range_index (nrows df),
                         cols = map (\<lambda>(nc, xs). (fst nc, restore_column (snd nc) xs))
                                  (zip (cols df) arr)\<rparr>)"

section \<open>Column access\<close>

text \<open>
  \<^verbatim>\<open>df[name]\<close> raises KeyError for an absent column; \<^verbatim>\<open>df[name] = c\<close> replaces the
  column in place when the name exists and appends it otherwise;
  \<^verbatim>\<open>df.drop(columns=names)\<close> raises KeyError when one of the names is absent.
\<close>

definition getitem :: "dataframe \<Rightarrow> string \<Rightarrow> error + column" where
  "getitem df name = (case map_of (cols df) name of None \<Rightarrow> Inl KeyError | Some c \<Rightarrow> Inr c)"

definition setitem :: "dataframe \<Rightarrow> string \<Rightarrow> column \<Rightarrow> dataframe" where
  "setitem df name c = df\<lparr>cols := AList.update name c (cols df)\<rparr>"

definition drop_columns :: "dataframe \<Rightarrow> string list \<Rightarrow> error + dataframe" where
  "drop_columns df names =
     (if list_all (\<lambda>n. n \<in> set (colnames df)) names
      then Inr (df\<lparr>cols := filter (\<lambda>nc. fst nc \<notin> set names) (cols df)\<rparr>)
      else Inl KeyError)"

section \<open>remove_outliers_iqr\<close>

text \<open>
  \<^verbatim>\<open>Series.quantile(q)\<close> ignores missing values and interpolates linearly between the
  two order statistics around the position \<open>q * (n - 1)\<close>; on a column without any value
  it is NaN. Arithmetic and comparisons with NaN: an operation with a NaN operand is NaN,
  a comparison with a NaN operand is false.
\<close>

definition quantile :: "real option list \<Rightarrow> real \<Rightarrow> real option" where
  "quantile xs q =
     (let vs = sort (observed xs)
      in if vs = [] then None
         else (let pos = q * real (length vs - 1);
                   lo = nat \<lfloor>pos\<rfloor>;
                   hi = min (lo + 1) (length vs - 1)
               in Some (vs ! lo + (vs ! hi - vs ! lo) * (pos - real lo))))"

fun nan_op :: "(real \<Rightarrow> real \<Rightarrow> real) \<Rightarrow> real option \<Rightarrow> real option \<Rightarrow> real option" where
  "nan_op f (Some a) (Some b) = Some (f a b)"
| "nan_op f a b = None"

fun nan_le :: "real option \<Rightarrow> real option \<Rightarrow> bool" where
  "nan_le (Some a) (Some b) = (a \<le> b)"
| "nan_le a b = False"

text \<open>
  Boolean indexing \<^verbatim>\<open>df[mask]\<close> takes the rows at the positions where the mask holds,
  in order, with their index labels.
\<close>

definition take_rows :: "nat list \<Rightarrow> 'a list \<Rightarrow> 'a list" where
  "take_rows keep xs = map (\<lambda>i. xs ! i) keep"

fun col_take :: "nat list \<Rightarrow> column \<Rightarrow> column" where
  "col_take keep (NumCol xs) = NumCol (take_rows keep xs)"
| "col_take keep (ObjCol ss) = ObjCol (take_rows keep ss)"

definition iqr_bounds :: "real option list \<Rightarrow> real option \<times> real option" where
  "iqr_bounds xs =
     (let Q1 = quantile xs (1 / 4);
          Q3 = quantile xs (3 / 4);
          IQR = nan_op (-) Q3 Q1;
          lower_bound = nan_op (-) Q1 (nan_op (*) (Some (3 / 2)) IQR);
          upper_bound = nan_op (+) Q3 (nan_op (*) (Some (3 / 2)) IQR)
      in (lower_bound, upper_bound))"

definition remove_outliers_iqr :: "dataframe \<Rightarrow> string \<Rightarrow> error + dataframe" where
  "remove_outliers_iqr df column =
     bind_err (getitem df column)
       (\<lambda>c. case c of
               ObjCol ss \<Rightarrow> Inl TypeError
             | NumCol xs \<Rightarrow>
                 (let (lower_bound, upper_bound) = iqr_bounds xs;
                      mask = map (\<lambda>v. nan_le lower_bound v \<and> nan_le v upper_bound) xs;
                      keep = filter (\<lambda>i. mask ! i) [0..<length mask]
                  in Inr \<lparr>idx = take_rows keep (idx df),
                            cols = map (\<lambda>nc. (fst nc, col_take keep (snd nc))) (cols df)\<rparr>))"

section \<open>create_features\<close>

text \<open>
  Element-wise arithmetic on numeric columns; a missing operand gives a missing result.
  Arithmetic that involves an object column is modelled as TypeError (float times
  string); inside \<open>preprocess_data\<close> no object column reaches this point.
\<close>

fun col_mul :: "column \<Rightarrow> column \<Rightarrow> error + column" where
  "col_mul (NumCol xs) (NumCol ys) = Inr (NumCol (map (\<lambda>(x, y). nan_op (*) x y) (zip xs ys)))"
| "col_mul a b = Inl TypeError"

fun rsub_col :: "real \<Rightarrow> column \<Rightarrow> error + column" where
  "rsub_col k (NumCol xs) = Inr (NumCol (map (\<lambda>x. nan_op (-) (Some k) x) xs))"
| "rsub_col k (ObjCol ss) = Inl TypeError"

definition create_features :: "dataframe \<Rightarrow> error + dataframe" where
  "create_features df =
     bind_err (getitem df ''engine'') (\<lambda>e.
     bind_err (getitem df ''transmission'') (\<lambda>t.
     bind_err (col_mul e t) (\<lambda>et.
     let df1 = setitem df ''engine_transmission'' et in
     bind_err (getitem df1 ''int_col'') (\<lambda>ic.
     bind_err (getitem df1 ''ext_col'') (\<lambda>ec.
     bind_err (col_mul ic ec) (\<lambda>ie.
     let df2 = setitem df1 ''int_ext_color'' ie in
     bind_err (drop_columns df2 [''engine'', ''transmission'', ''int_col'', ''ext_col'']) (\<lambda>df3.
     bind_err (getitem df3 ''model_year'') (\<lambda>my.
     bind_err (rsub_col 2024 my) (\<lambda>age.
     let df4 = setitem df3 ''car_age'' age in
     drop_columns df4 [''model_year''])))))))))"

section \<open>The ordinal encoder\<close>

text \<open>
  The state of a scikit-learn \<^verbatim>\<open>OrdinalEncoder\<close>: the categories learnt per column
  (absent before \<^verbatim>\<open>fit\<close>), the column names seen at \<^verbatim>\<open>fit\<close> when it was fitted on a named
  table, and what to do with a value that is not among the categories: raise (the
  library's default) or emit \<^verbatim>\<open>unknown_value\<close>.
\<close>

datatype unknown_policy = RaiseOnUnknown | UseEncodedValue "real option"

record encoder =
  categories_fit :: "string list list option"
  feature_names_in :: "string list option"
  handle_unknown :: unknown_policy

definition encode_value :: "unknown_policy \<Rightarrow> string list \<Rightarrow> string \<Rightarrow> real option" where
  "encode_value pol cats s =
     (if s \<in> set cats then Some (real (index_of s cats))
      else (case pol of UseEncodedValue u \<Rightarrow> u | RaiseOnUnknown \<Rightarrow> None))"

definition encoder_transform ::
  "encoder \<Rightarrow> string list \<Rightarrow> string list list \<Rightarrow> error + real option list list" where
  "encoder_transform enc names X =
     (case categories_fit enc of
        None \<Rightarrow> Inl NotFittedError
      | Some cats \<Rightarrow>
          if (case feature_names_in enc of None \<Rightarrow> False | Some ns \<Rightarrow> ns \<noteq> names)
             \<or> length cats \<noteq> length X then Inl ValueError
          else if handle_unknown enc = RaiseOnUnknown
                  \<and> list_ex (\<lambda>(cs, x). list_ex (\<lambda>s. s \<notin> set cs) x) (zip cats X)
          then Inl ValueError
          else Inr (map (\<lambda>(cs, x). map (encode_value (handle_unknown enc) cs) x) (zip cats X)))"

text \<open>
  The object of the class: the encoder and the scaler. \<open>DataPreprocessor_init\<close> takes
  the outcome of \<^verbatim>\<open>joblib.load(encoder_path)\<close>: the loaded encoder, or \<open>None\<close> when
  the call raised (whatever the exception, the \<^verbatim>\<open>except:\<close> is bare). The scaler holds,
  once fitted, the mean and the scale of every column.
\<close>

record preprocessor =
  ordinal_encoder :: encoder
  scaler :: "(real option \<times> real option) list option"

definition fallback_encoder :: encoder where
  "fallback_encoder =
     \<lparr>categories_fit = None, feature_names_in = None,
      handle_unknown = UseEncodedValue (Some (- 1))\<rparr>"

definition DataPreprocessor_init :: "encoder option \<Rightarrow> preprocessor" where
  "DataPreprocessor_init loaded =
     \<lparr>ordinal_encoder = (case loaded of Some e \<Rightarrow> e | None \<Rightarrow> fallback_encoder),
      scaler = None\<rparr>"

section \<open>preprocess_data\<close>

text \<open>
  \<^verbatim>\<open>astype(str)\<close> turns the missing values left by \<open>knn_impute\<close> (NaN) into the string
  \<^verbatim>\<open>nan\<close>. \<^verbatim>\<open>df[cat_cols] = array\<close> replaces every object column, in order, by the
  corresponding column of the encoder's output.
\<close>

fun astype_str :: "column \<Rightarrow> string list" where
  "astype_str (ObjCol ss) = map (\<lambda>v. case v of None \<Rightarrow> ''nan'' | Some s \<Rightarrow> s) ss"
| "astype_str (NumCol xs) = []"

fun assign_encoded :: "(string \<times> column) list \<Rightarrow> real option list list \<Rightarrow> (string \<times> column) list" where
  "assign_encoded [] arr = []"
| "assign_encoded ((n, NumCol xs) # rest) arr = (n, NumCol xs) # assign_encoded rest arr"
| "assign_encoded ((n, ObjCol ss) # rest) [] = (n, ObjCol ss) # rest"
| "assign_encoded ((n, ObjCol ss) # rest) (a # arr) = (n, NumCol a) # assign_encoded rest arr"

definition encode_categoricals :: "encoder \<Rightarrow> dataframe \<Rightarrow> error + dataframe" where
  "encode_categoricals enc df =
     (let cat_cols = filter (\<lambda>nc. is_object (snd nc)) (cols df)
      in if length cat_cols > 0
         then bind_err (encoder_transform enc (map fst cat_cols) (map (\<lambda>nc. astype_str (snd nc)) cat_cols))
                (\<lambda>arr. Inr (df\<lparr>cols := assign_encoded (cols df) arr\<rparr>))
         else Inr df)"

definition reset_index :: "dataframe \<Rightarrow> dataframe" where
  "reset_index df = df\<lparr>idx := range_index (nrows df)\<rparr>"

definition preprocess_data :: "estimator \<Rightarrow> preprocessor \<Rightarrow> dataframe \<Rightarrow> bool \<Rightarrow> error + dataframe" where
  "preprocess_data est self df is_training =
     bind_err (if ''id'' \<in> set (colnames df) then drop_columns df [''id''] else Inr df) (\<lambda>df1.
     bind_err (knn_impute est df1 25) (\<lambda>df2.
     bind_err (encode_categoricals (ordinal_encoder self) df2) (\<lambda>df3.
     bind_err (create_features df3) (\<lambda>df4.
     if is_training
     then bind_err (remove_outliers_iqr df4 ''milage'') (\<lambda>df5.
          bind_err (remove_outliers_iqr df5 ''price'') (\<lambda>df6.
          Inr (reset_index df6)))
     else Inr df4))))"

section \<open>prepare_for_training\<close>

text \<open>
  \<^verbatim>\<open>StandardScaler().fit_transform\<close>: per column, the mean and the population variance
  of the present values; the scale is the square root of the variance, and 1 for a
  constant column; every present value \<open>x\<close> becomes \<open>(x - mean) / scale\<close>, a missing value
  stays missing. It rejects a table without rows; that an object column reaches it is
  modelled as ValueError (no object column is left after \<open>preprocess_data\<close>).
\<close>

definition scaler_fit_column :: "real option list \<Rightarrow> real option \<times> real option" where
  "scaler_fit_column xs =
     (let vs = observed xs
      in if vs = [] then (None, None)
         else (let m = mean_list vs;
                   v = mean_list (map (\<lambda>x. (x - m) * (x - m)) vs)
               in (Some m, Some (if v = 0 then 1 else sqrt v))))"

definition scaler_transform_column :: "real option \<times> real option \<Rightarrow> real option list \<Rightarrow> real option list" where
  "scaler_transform_column ms xs =
     map (\<lambda>x. nan_op (/) (nan_op (-) x (fst ms)) (snd ms)) xs"

definition scaler_fit_transform ::
  "nat \<Rightarrow> column list \<Rightarrow> error + ((real option \<times> real option) list \<times> real option list list)" where
  "scaler_fit_transform n cs =
     (if n = 0 \<or> list_ex is_object cs then Inl ValueError
      else (let params = map (\<lambda>c. scaler_fit_column (encode_for_knn c)) cs
            in Inr (params, map (\<lambda>(ms, c). scaler_transform_column ms (encode_for_knn c)) (zip params cs))))"

fun getitems :: "dataframe \<Rightarrow> string list \<Rightarrow> error + column list" where
  "getitems df [] = Inr []"
| "getitems df (n # ns) =
     bind_err (getitem df n) (\<lambda>c. bind_err (getitems df ns) (\<lambda>cs. Inr (c # cs)))"

fun loc_assign :: "dataframe \<Rightarrow> string list \<Rightarrow> real option list list \<Rightarrow> dataframe" where
  "loc_assign df (n # ns) (a # arr) = loc_assign (setitem df n (NumCol a)) ns arr"
| "loc_assign df ns arr = df"

definition numeric_cols :: "string list" where
  "numeric_cols = [''brand'', ''model'', ''milage'', ''int_ext_color'', ''engine_transmission'']"

type_synonym series = "int list \<times> column"

definition prepare_for_training ::
  "estimator \<Rightarrow> preprocessor \<Rightarrow> dataframe \<Rightarrow> string \<Rightarrow> bool
     \<Rightarrow> error + (preprocessor \<times> dataframe \<times> series)" where
  "prepare_for_training est self df target_col scale_features =
     bind_err (preprocess_data est self df True) (\<lambda>df_processed.
     bind_err (if scale_features
               then bind_err (getitems df_processed numeric_cols) (\<lambda>cs.
                    bind_err (scaler_fit_transform (nrows df_processed) cs) (\<lambda>(params, arr).
                    Inr (self\<lparr>scaler := Some params\<rparr>, loc_assign df_processed numeric_cols arr)))
               else Inr (self, df_processed)) (\<lambda>(self', df_scaled).
     bind_err (drop_columns df_scaled [target_col]) (\<lambda>X.
     bind_err (getitem df_scaled target_col) (\<lambda>y.
     Inr (self', X, (idx df_scaled, y))))))"

section \<open>Notions used to state the properties\<close>

text \<open>
  The rows of a table: for every position the index label and the cells of the row, in
  column order. They state which rows an operation keeps.
\<close>

datatype cell = Num real | Str string | Missing

fun cell_at :: "column \<Rightarrow> nat \<Rightarrow> cell" where
  "cell_at (NumCol xs) i = (case xs ! i of None \<Rightarrow> Missing | Some v \<Rightarrow> Num v)"
| "cell_at (ObjCol ss) i = (case ss ! i of None \<Rightarrow> Missing | Some s \<Rightarrow> Str s)"


text \<open>
  The specification of the outlier filter, in its words: a value lies within
  \<open>[Q1 - 1.5 IQR, Q3 + 1.5 IQR]\<close>, where \<open>Q1\<close> and \<open>Q3\<close> are the 25th and 75th
  percentiles of the column \<open>xs\<close> of the input. A missing value lies in no interval, and
  without percentiles (a column without values) there is no interval.
\<close>

definition within_iqr :: "real option list \<Rightarrow> cell \<Rightarrow> bool" where
  "within_iqr xs v =
     (case (quantile xs (1 / 4), quantile xs (3 / 4), v) of
        (Some Q1, Some Q3, Num x) \<Rightarrow>
          Q1 - 3 / 2 * (Q3 - Q1) \<le> x \<and> x \<le> Q3 + 3 / 2 * (Q3 - Q1)
      | _ \<Rightarrow> False)"

text \<open>The values of a numeric column of a table, by name.\<close>

definition num_values :: "dataframe \<Rightarrow> string \<Rightarrow> real option list" where
  "num_values df name = (case map_of (cols df) name of Some (NumCol xs) \<Rightarrow> xs | _ \<Rightarrow> [])"

text \<open>
  The specification of \<open>preprocess_data\<close>, in its words: a sequence of stages, each
  applied to the result of the one before; an exception of a stage ends the sequence.
\<close>

definition drop_id :: "dataframe \<Rightarrow> error + dataframe" where
  "drop_id df = (if ''id'' \<in> set (colnames df) then drop_columns df [''id''] else Inr df)"

definition run_stages :: "(dataframe \<Rightarrow> error + dataframe) list \<Rightarrow> dataframe \<Rightarrow> error + dataframe" where
  "run_stages stages df = fold (\<lambda>stage r. bind_err r stage) stages (Inr df)"

definition inference_stages :: "estimator \<Rightarrow> preprocessor \<Rightarrow> (dataframe \<Rightarrow> error + dataframe) list" where
  "inference_stages est self =
     [drop_id,
      (\<lambda>df. knn_impute est df 25),
      encode_categoricals (ordinal_encoder self),
      create_features]"


text \<open>A table all of whose columns are numeric.\<close>

definition all_numeric :: "dataframe \<Rightarrow> bool" where
  "all_numeric df = list_all (\<lambda>nc. \<not> is_object (snd nc)) (cols df)"

text \<open>The names of the object (categorical) columns of a table, in column order.\<close>

definition object_names :: "dataframe \<Rightarrow> string list" where
  "object_names df = map fst (filter (\<lambda>nc. is_object (snd nc)) (cols df))"

text \<open>Every categorical column of the table has at least one observed value.\<close>

definition categories_observed :: "dataframe \<Rightarrow> bool" where
  "categories_observed df =
     list_all (\<lambda>nc. case snd nc of ObjCol ss \<Rightarrow> \<not> all_missing ss | NumCol xs \<Rightarrow> True) (cols df)"

text \<open>The columns \<open>create_features\<close> consumes and the columns it produces.\<close>

definition source_cols :: "string list" where
  "source_cols = [''engine'', ''transmission'', ''int_col'', ''ext_col'', ''model_year'']"

definition feature_cols :: "string list" where
  "feature_cols = [''engine_transmission'', ''int_ext_color'', ''car_age'']"

section \<open>Example tables\<close>

text \<open>
  Concrete inputs, on which the properties below are evaluated. \<open>ex_encoder\<close> is a
  persisted encoder fitted on six categorical columns and configured like the fallback
  encoder of the source; \<open>ex_strict_encoder\<close> is the same encoder with the library's
  default for unknown values.
\<close>

definition ex_encoder :: encoder where
  "ex_encoder =
     \<lparr>categories_fit = Some [[''audi'', ''bmw'', ''ford''],
                             [''a4'', ''f150'', ''focus'', ''x5''],
                             [''v6'', ''v8''],
                             [''auto'', ''manual''],
                             [''black'', ''white''],
                             [''beige'', ''black'']],
      feature_names_in = Some [''brand'', ''model'', ''engine'', ''transmission'', ''ext_col'', ''int_col''],
      handle_unknown = UseEncodedValue (Some (- 1))\<rparr>"

definition ex_strict_encoder :: encoder where
  "ex_strict_encoder = ex_encoder\<lparr>handle_unknown := RaiseOnUnknown\<rparr>"

text \<open>
  A training table of four rows. The milage of the last row is an outlier; the price of
  the third row is an outlier among the four prices, but not among the three prices that
  are left once the last row is removed.
\<close>

definition ex_cars :: dataframe where
  "ex_cars =
     \<lparr>idx = [0, 1, 2, 3],
      cols = [(''id'', NumCol [Some 100, Some 101, Some 102, Some 103]),
              (''brand'', ObjCol [Some ''ford'', Some ''bmw'', Some ''ford'', Some ''audi'']),
              (''model'', ObjCol [Some ''f150'', Some ''x5'', Some ''focus'', Some ''a4'']),
              (''model_year'', NumCol [Some 2015, Some 2020, Some 2018, Some 2010]),
              (''milage'', NumCol [Some 1000, Some 2000, Some 3000, Some 1000000]),
              (''engine'', ObjCol [Some ''v6'', Some ''v8'', Some ''v6'', Some ''v6'']),
              (''transmission'', ObjCol [Some ''auto'', Some ''manual'', Some ''auto'', Some ''auto'']),
              (''ext_col'', ObjCol [Some ''black'', Some ''white'', Some ''black'', Some ''red'']),
              (''int_col'', ObjCol [Some ''black'', Some ''beige'', Some ''black'', Some ''black'']),
              (''price'', NumCol [Some 10000, Some 10000, Some 20000, Some 10000])]\<rparr>"

text \<open>
  A table for inference with its own row labels, a missing milage, a brand the encoder
  has not seen and a missing brand.
\<close>

definition ex_query :: dataframe where
  "ex_query =
     \<lparr>idx = [7, 9, 11],
      cols = [(''brand'', ObjCol [Some ''bmw'', Some ''tesla'', None]),
              (''model'', ObjCol [Some ''x5'', Some ''a4'', Some ''focus'']),
              (''model_year'', NumCol [Some 2020, Some 2021, Some 2018]),
              (''milage'', NumCol [Some 2000, None, Some 3000]),
              (''engine'', ObjCol [Some ''v8'', Some ''v6'', Some ''v6'']),
              (''transmission'', ObjCol [Some ''manual'', Some ''auto'', Some ''auto'']),
              (''ext_col'', ObjCol [Some ''white'', Some ''black'', Some ''black'']),
              (''int_col'', ObjCol [Some ''beige'', Some ''black'', Some ''black''])]\<rparr>"

text \<open>A training table of two rows.\<close>

definition ex_pair :: dataframe where
  "ex_pair =
     \<lparr>idx = [0, 1],
      cols = [(''brand'', ObjCol [Some ''audi'', Some ''ford'']),
              (''model'', ObjCol [Some ''a4'', Some ''focus'']),
              (''model_year'', NumCol [Some 2019, Some 2021]),
              (''milage'', NumCol [Some 1000, Some 1002]),
              (''engine'', ObjCol [Some ''v8'', Some ''v8'']),
              (''transmission'', ObjCol [Some ''manual'', Some ''manual'']),
              (''ext_col'', ObjCol [Some ''white'', Some ''red'']),
              (''int_col'', ObjCol [Some ''black'', Some ''black'']),
              (''price'', NumCol [Some 10000, Some 30000])]\<rparr>"

text \<open>An encoded table, as \<open>create_features\<close> receives it, with a missing engine code.\<close>

definition ex_encoded :: dataframe where
  "ex_encoded =
     \<lparr>idx = [0, 1],
      cols = [(''milage'', NumCol [Some 1000, Some 52000]),
              (''engine'', NumCol [Some 2, None]),
              (''transmission'', NumCol [Some 3, Some 1]),
              (''int_col'', NumCol [Some 1, Some 2]),
              (''ext_col'', NumCol [Some 0, Some 5]),
              (''model_year'', NumCol [Some 2020, Some 2010])]\<rparr>"

text \<open>Milage and price of the training table, under row labels of their own.\<close>

definition ex_prices :: dataframe where
  "ex_prices =
     \<lparr>idx = [10, 11, 12, 13],
      cols = [(''milage'', NumCol [Some 1000, Some 2000, Some 3000, Some 1000000]),
              (''price'', NumCol [Some 10000, Some 10000, Some 20000, Some 10000])]\<rparr>"

section \<open>Basic facts\<close>

lemma bind_err_Inl: "bind_err (Inl e) f = Inl e"
  by (simp add: bind_err_def)

lemma bind_err_Inr: "bind_err (Inr x) f = f x"
  by (simp add: bind_err_def)

lemma bind_err_eq_Inr: "bind_err r f = Inr y \<longleftrightarrow> (\<exists>x. r = Inr x \<and> f x = Inr y)"
  by (cases r) (simp_all add: bind_err_def)

lemma np_round_of_int: "np_round (real_of_int c) = c"
  by (simp add: np_round_def)

lemma index_of_less: "x \<in> set xs \<Longrightarrow> index_of x xs < length xs"
  by (induction xs) auto

lemma nth_index_of: "x \<in> set xs \<Longrightarrow> xs ! index_of x xs = x"
  by (induction xs) auto

lemma set_observed: "set (observed xs) = {x. Some x \<in> set xs}"
  by (induction xs) (auto simp: observed_def split: option.splits)

lemma set_cat_categories: "set (cat_categories ss) = {s. Some s \<in> set ss}"
  by (simp add: cat_categories_def set_observed)

lemma distinct_cat_categories: "distinct (cat_categories ss)"
  by (simp add: cat_categories_def)

lemma length_cat_codes: "length (cat_codes ss) = length ss"
  by (simp add: cat_codes_def)

lemma decode_cat_codes_all:
  "decode_codes (cat_categories ss) (map real_of_int (cat_codes ss)) = ss"
  by (auto simp: decode_codes_def cat_codes_def np_round_of_int Let_def
        set_cat_categories index_of_less nth_index_of
        intro!: map_idI split: option.splits)

subsection \<open>What \<open>knn_impute\<close> computes\<close>

lemma length_encode_for_knn: "length (encode_for_knn c) = col_len c"
  by (cases c) (simp_all add: length_cat_codes)

lemma length_fill_column: "length (fill_column est k M j) = length (M ! j)"
  by (simp add: fill_column_def)

lemma fill_column_present:
  "None \<notin> set (M ! j) \<Longrightarrow> fill_column est k M j = map the (M ! j)"
  by (auto simp: fill_column_def in_set_conv_nth intro!: nth_equalityI split: option.splits)

lemma fill_column_codes:
  "M ! j = map (\<lambda>c. Some (real_of_int c)) cs \<Longrightarrow> fill_column est k M j = map real_of_int cs"
  by (auto simp: fill_column_def intro!: nth_equalityI)

lemma map_Some_the: "None \<notin> set xs \<Longrightarrow> map (Some \<circ> the) xs = xs"
  by (induction xs) auto

lemma cat_categories_empty: "cat_categories ss = [] \<longleftrightarrow> all_missing ss"
proof -
  have "cat_categories ss = [] \<longleftrightarrow> set (cat_categories ss) = {}" by simp
  also have "\<dots> \<longleftrightarrow> (\<forall>s. Some s \<notin> set ss)" by (auto simp: set_cat_categories)
  also have "\<dots> \<longleftrightarrow> all_missing ss"
    by (auto simp: all_missing_def list_all_iff) (metis option.exhaust)
  finally show ?thesis .
qed

lemma filter_full: "length (filter P xs) = length xs \<Longrightarrow> filter P xs = xs"
proof (induction xs)
  case Nil
  then show ?case by simp
next
  case (Cons x xs)
  have le: "length (filter P xs) \<le> length xs" by simp
  show ?case
  proof (cases "P x")
    case True
    with Cons show ?thesis by simp
  next
    case False
    with Cons.prems le show ?thesis by simp
  qed
qed

text \<open>The column the imputer step leaves in place of column \<open>c\<close>, the \<open>j\<close>-th of the frame.\<close>

lemma restore_fill_object:
  assumes "M ! j = encode_for_knn (ObjCol ss)"
  shows "restore_column (ObjCol ss) (fill_column est k M j)
       = (if all_missing ss then NumCol (map (\<lambda>x. None) ss) else ObjCol ss)"
proof -
  have "fill_column est k M j = map real_of_int (cat_codes ss)"
    using assms by (intro fill_column_codes) simp
  then show ?thesis
    by (simp add: cat_categories_empty decode_cat_codes_all length_cat_codes
          comp_def map_replicate_const)
qed

lemma restore_fill_numeric:
  "restore_column (NumCol xs) (fill_column est k M j) = NumCol (map Some (fill_column est k M j))"
  by simp

lemma knn_impute_Inr:
  assumes "knn_impute est df k = Inr out"
  shows "1 \<le> k \<and> 0 < nrows df \<and> cols df \<noteq> []
     \<and> (\<forall>j < length (cols df). \<not> all_missing (encode_for_knn (snd (cols df ! j))))
     \<and> out = \<lparr>idx = range_index (nrows df),
              cols = map (\<lambda>j. (fst (cols df ! j),
                        restore_column (snd (cols df ! j))
                          (fill_column est (nat k) (map (\<lambda>nc. encode_for_knn (snd nc)) (cols df)) j)))
                     [0..<length (cols df)]\<rparr>"
proof -
  let ?M = "map (\<lambda>nc. encode_for_knn (snd nc)) (cols df)"
  let ?keep = "filter (\<lambda>j. \<not> all_missing (?M ! j)) [0..<length ?M]"
  from assms obtain arr where
    arr: "knn_fit_transform est k (nrows df) ?M = Inr arr"
    and len: "length arr = length (cols df)"
    and out: "out = \<lparr>idx = range_index (nrows df),
                     cols = map (\<lambda>(nc, xs). (fst nc, restore_column (snd nc) xs)) (zip (cols df) arr)\<rparr>"
    by (auto simp: knn_impute_def bind_err_eq_Inr split: if_splits)
  from arr have guard: "1 \<le> k" "0 < nrows df" "cols df \<noteq> []"
    and arr_eq: "arr = map (fill_column est (nat k) ?M) ?keep"
    by (auto simp: knn_fit_transform_def split: if_splits)
  from len arr_eq have "length ?keep = length [0..<length ?M]" by simp
  then have keep: "?keep = [0..<length ?M]" by (rule filter_full)
  have nm: "\<forall>j < length (cols df). \<not> all_missing (encode_for_knn (snd (cols df ! j)))"
  proof (intro allI impI)
    fix j assume j: "j < length (cols df)"
    then have "j \<in> set ?keep" unfolding keep by simp
    then have "\<not> all_missing (?M ! j)" by (simp del: nth_map)
    with j show "\<not> all_missing (encode_for_knn (snd (cols df ! j)))" by simp
  qed
  have "map (\<lambda>(nc, xs). (fst nc, restore_column (snd nc) xs)) (zip (cols df) arr)
      = map (\<lambda>j. (fst (cols df ! j), restore_column (snd (cols df ! j)) (fill_column est (nat k) ?M j)))
          [0..<length (cols df)]"
    using len arr_eq keep by (intro nth_equalityI) simp_all
  with guard nm out show ?thesis by simp
qed

lemma knn_impute_intro:
  assumes "1 \<le> k" "0 < nrows df" "cols df \<noteq> []"
    and "\<forall>j < length (cols df). \<not> all_missing (encode_for_knn (snd (cols df ! j)))"
  shows "knn_impute est df k = Inr \<lparr>idx = range_index (nrows df),
              cols = map (\<lambda>j. (fst (cols df ! j),
                        restore_column (snd (cols df ! j))
                          (fill_column est (nat k) (map (\<lambda>nc. encode_for_knn (snd nc)) (cols df)) j)))
                     [0..<length (cols df)]\<rparr>"
proof -
  let ?M = "map (\<lambda>nc. encode_for_knn (snd nc)) (cols df)"
  let ?keep = "filter (\<lambda>j. \<not> all_missing (?M ! j)) [0..<length ?M]"
  have "\<forall>j \<in> set [0..<length ?M]. \<not> all_missing (?M ! j)" using assms(4) by simp
  then have keep: "?keep = [0..<length ?M]" by (simp only: filter_True)
  have ft: "knn_fit_transform est k (nrows df) ?M = Inr (map (fill_column est (nat k) ?M) [0..<length ?M])"
    using assms(1-3) keep by (simp add: knn_fit_transform_def)
  have "map (\<lambda>(nc, xs). (fst nc, restore_column (snd nc) xs))
          (zip (cols df) (map (fill_column est (nat k) ?M) [0..<length ?M]))
      = map (\<lambda>j. (fst (cols df ! j), restore_column (snd (cols df ! j)) (fill_column est (nat k) ?M j)))
          [0..<length (cols df)]"
    by (intro nth_equalityI) simp_all
  then show ?thesis
    unfolding knn_impute_def ft bind_err_Inr by simp
qed

lemma knn_impute_guard:
  "k < 1 \<or> nrows df = 0 \<or> cols df = [] \<Longrightarrow> knn_impute est df k = Inl ValueError"
  by (auto simp: knn_impute_def knn_fit_transform_def bind_err_Inl)

lemma wf_col_len: "wf_df df \<Longrightarrow> j < length (cols df) \<Longrightarrow> col_len (snd (cols df ! j)) = nrows df"
  by (simp add: wf_df_def list_all_length)

lemma no_missing_col:
  "\<not> has_missing df \<Longrightarrow> j < length (cols df) \<Longrightarrow> \<not> col_has_missing (snd (cols df ! j))"
  by (auto simp: has_missing_def list_ex_iff)

lemma encode_no_missing: "\<not> col_has_missing c \<Longrightarrow> None \<notin> set (encode_for_knn c)"
  by (cases c) auto

lemma not_all_missing: "None \<notin> set xs \<Longrightarrow> xs \<noteq> [] \<Longrightarrow> \<not> all_missing xs"
  by (cases xs) (auto simp: all_missing_def)

lemma restore_no_missing:
  assumes "\<not> col_has_missing c" "0 < col_len c" "M ! j = encode_for_knn c"
  shows "restore_column c (fill_column est k M j) = c"
proof (cases c)
  case (NumCol xs)
  with assms show ?thesis by (simp add: fill_column_present map_Some_the)
next
  case (ObjCol ss)
  with assms have "\<not> all_missing ss" by (intro not_all_missing) auto
  with ObjCol assms(3) restore_fill_object [of M j ss est k] show ?thesis
    by (simp del: restore_column.simps encode_for_knn.simps)
qed

subsection \<open>Stage by stage: index, names, shape\<close>

lemma idx_setitem: "idx (setitem df n c) = idx df"
  by (simp add: setitem_def)

lemma nrows_setitem: "nrows (setitem df n c) = nrows df"
  by (simp add: setitem_def nrows_def)

lemma drop_columns_Inr:
  "drop_columns df ns = Inr d \<Longrightarrow> d = df\<lparr>cols := filter (\<lambda>nc. fst nc \<notin> set ns) (cols df)\<rparr>"
  by (auto simp: drop_columns_def split: if_splits)

lemma idx_drop_columns: "drop_columns df ns = Inr d \<Longrightarrow> idx d = idx df"
  by (auto dest: drop_columns_Inr)

lemma idx_drop_id: "drop_id df = Inr d \<Longrightarrow> idx d = idx df"
  by (auto simp: drop_id_def dest: idx_drop_columns split: if_splits)

lemma idx_knn_impute: "knn_impute est df k = Inr out \<Longrightarrow> idx out = range_index (nrows df)"
  by (auto dest: knn_impute_Inr)

lemma idx_encode_categoricals: "encode_categoricals enc df = Inr d \<Longrightarrow> idx d = idx df"
  by (auto simp: encode_categoricals_def Let_def bind_err_eq_Inr split: if_splits)

lemma idx_create_features: "create_features df = Inr d \<Longrightarrow> idx d = idx df"
  unfolding create_features_def Let_def bind_err_eq_Inr
  by (auto dest!: idx_drop_columns simp: idx_setitem)

lemma nrows_range_index: "length (range_index n) = n"
  by (simp add: range_index_def)

subsection \<open>The pipeline as a sequence of stages\<close>

lemma preprocess_data_inference:
  "preprocess_data est self df False = run_stages (inference_stages est self) df"
  by (simp add: preprocess_data_def run_stages_def inference_stages_def drop_id_def
        bind_err_Inr bind_err_def split: sum.splits)


lemma preprocess_data_inference_Inr:
  assumes "preprocess_data est self df False = Inr out"
  shows "\<exists>df1 df2 df3. drop_id df = Inr df1 \<and> knn_impute est df1 25 = Inr df2
          \<and> encode_categoricals (ordinal_encoder self) df2 = Inr df3
          \<and> create_features df3 = Inr out"
  using assms by (auto simp: preprocess_data_def drop_id_def bind_err_eq_Inr split: if_splits)

lemma preprocess_data_training_Inr:
  assumes "preprocess_data est self df True = Inr out"
  shows "\<exists>df1 df2 df3 df4 df5 df6. drop_id df = Inr df1 \<and> knn_impute est df1 25 = Inr df2
          \<and> encode_categoricals (ordinal_encoder self) df2 = Inr df3
          \<and> create_features df3 = Inr df4
          \<and> remove_outliers_iqr df4 ''milage'' = Inr df5
          \<and> remove_outliers_iqr df5 ''price'' = Inr df6
          \<and> out = reset_index df6"
  using assms by (auto simp: preprocess_data_def drop_id_def bind_err_eq_Inr split: if_splits)

subsection \<open>Well-formedness through the stages\<close>

lemma wf_df_iff:
  "wf_df df \<longleftrightarrow> distinct (map fst (cols df)) \<and> (\<forall>nc \<in> set (cols df). col_len (snd nc) = nrows df)"
  by (simp add: wf_df_def colnames_def list_all_iff)

lemma length_decode_codes: "length (decode_codes cats xs) = length xs"
  by (simp add: decode_codes_def)

lemma col_len_restore_column: "col_len (restore_column c xs) = length xs"
  by (cases c) (simp_all add: length_decode_codes)

lemma knn_impute_shape:
  assumes "wf_df df" "knn_impute est df k = Inr out"
  shows "wf_df out \<and> colnames out = colnames df \<and> nrows out = nrows df"
proof -
  let ?M = "map (\<lambda>nc. encode_for_knn (snd nc)) (cols df)"
  from knn_impute_Inr [OF assms(2)] have
    out: "out = \<lparr>idx = range_index (nrows df),
              cols = map (\<lambda>j. (fst (cols df ! j),
                        restore_column (snd (cols df ! j)) (fill_column est (nat k) ?M j)))
                     [0..<length (cols df)]\<rparr>"
    by simp
  have names: "map fst (cols out) = map fst (cols df)"
    unfolding out by (intro nth_equalityI) simp_all
  have n: "nrows out = nrows df"
    unfolding out by (simp add: nrows_def nrows_range_index)
  have "col_len (snd nc) = nrows df" if "nc \<in> set (cols out)" for nc
  proof -
    from that obtain j where j: "j < length (cols df)"
      and nc: "nc = (fst (cols df ! j),
                 restore_column (snd (cols df ! j)) (fill_column est (nat k) ?M j))"
      unfolding out by auto
    have "col_len (snd nc) = length (?M ! j)"
      unfolding nc by (simp add: col_len_restore_column length_fill_column)
    also have "\<dots> = col_len (snd (cols df ! j))"
      using j by (simp add: length_encode_for_knn)
    also have "\<dots> = nrows df"
      using assms(1) j by (rule wf_col_len)
    finally show ?thesis .
  qed
  with names n assms(1) show ?thesis
    by (simp add: wf_df_iff colnames_def)
qed

lemma encoder_transform_shape:
  assumes "encoder_transform enc names X = Inr arr"
  shows "length arr = length X \<and> (\<forall>j < length X. length (arr ! j) = length (X ! j))"
  using assms
  by (auto simp: encoder_transform_def split: option.splits if_splits)

lemma fst_assign_encoded: "map fst (assign_encoded cs arr) = map fst cs"
  by (induction cs arr rule: assign_encoded.induct) simp_all

lemma numeric_assign_encoded:
  "length arr = length (filter (\<lambda>nc. is_object (snd nc)) cs) \<Longrightarrow>
     list_all (\<lambda>nc. \<not> is_object (snd nc)) (assign_encoded cs arr)"
  by (induction cs arr rule: assign_encoded.induct) simp_all

lemma col_len_assign_encoded:
  "\<forall>a \<in> set arr. length a = n \<Longrightarrow> \<forall>nc \<in> set cs. col_len (snd nc) = n \<Longrightarrow>
     \<forall>nc \<in> set (assign_encoded cs arr). col_len (snd nc) = n"
  by (induction cs arr rule: assign_encoded.induct) auto

lemma length_astype_str: "is_object c \<Longrightarrow> length (astype_str c) = col_len c"
  by (cases c) simp_all

lemma encode_categoricals_shape:
  assumes "wf_df df" "encode_categoricals enc df = Inr d"
  shows "wf_df d \<and> colnames d = colnames df \<and> nrows d = nrows df \<and> all_numeric d"
proof (cases "filter (\<lambda>nc. is_object (snd nc)) (cols df) = []")
  case True
  then have "list_all (\<lambda>nc. \<not> is_object (snd nc)) (cols df)"
    by (simp add: filter_empty_conv list_all_iff)
  with True assms show ?thesis
    by (simp add: encode_categoricals_def all_numeric_def)
next
  case False
  let ?cat = "filter (\<lambda>nc. is_object (snd nc)) (cols df)"
  let ?X = "map (\<lambda>nc. astype_str (snd nc)) ?cat"
  from False assms(2) obtain arr where
    arr: "encoder_transform enc (map fst ?cat) ?X = Inr arr"
    and d: "d = df\<lparr>cols := assign_encoded (cols df) arr\<rparr>"
    by (auto simp: encode_categoricals_def Let_def bind_err_eq_Inr)
  from encoder_transform_shape [OF arr] have
    len: "length arr = length ?cat" and
    lens: "\<forall>j < length ?cat. length (arr ! j) = length (?X ! j)"
    by simp_all
  have "length a = nrows df" if "a \<in> set arr" for a
  proof -
    from that obtain j where j: "j < length arr" "a = arr ! j"
      by (auto simp: in_set_conv_nth)
    with len have jc: "j < length ?cat" by simp
    then have mem: "?cat ! j \<in> set ?cat" by (rule nth_mem)
    then have obj: "is_object (snd (?cat ! j))" and "?cat ! j \<in> set (cols df)" by auto
    with assms(1) have "col_len (snd (?cat ! j)) = nrows df" by (simp add: wf_df_iff)
    with lens jc j obj show ?thesis by (simp add: length_astype_str)
  qed
  then have "\<forall>nc \<in> set (assign_encoded (cols df) arr). col_len (snd nc) = nrows df"
    using assms(1) by (intro col_len_assign_encoded) (auto simp: wf_df_iff)
  with assms(1) len show ?thesis
    unfolding d
    by (simp add: wf_df_iff colnames_def nrows_def all_numeric_def fst_assign_encoded
          numeric_assign_encoded)
qed

subsection \<open>Columns by name\<close>

lemma in_colnames_iff: "n \<in> set (colnames df) \<longleftrightarrow> map_of (cols df) n \<noteq> None"
  by (simp add: colnames_def map_of_eq_None_iff)

lemma map_of_filter_keep: "(\<And>v. P (k, v)) \<Longrightarrow> map_of (filter P al) k = map_of al k"
  by (induction al) auto

lemma map_of_filter_drop: "(\<And>v. \<not> P (k, v)) \<Longrightarrow> map_of (filter P al) k = None"
  by (induction al) auto

lemma getitem_Some: "map_of (cols df) n = Some c \<Longrightarrow> getitem df n = Inr c"
  by (simp add: getitem_def)

lemma getitem_None: "map_of (cols df) n = None \<Longrightarrow> getitem df n = Inl KeyError"
  by (simp add: getitem_def)

lemma cols_setitem: "cols (setitem df n c) = AList.update n c (cols df)"
  by (simp add: setitem_def)

lemma map_of_setitem: "map_of (cols (setitem df n c)) = (map_of (cols df))(n \<mapsto> c)"
  by (simp add: setitem_def update_conv')

lemma list_all_update:
  "list_all P al \<Longrightarrow> P (k, v) \<Longrightarrow> list_all P (AList.update k v al)"
  by (induction al) auto

lemma wf_setitem:
  "wf_df df \<Longrightarrow> col_len c = nrows df \<Longrightarrow> wf_df (setitem df n c)"
  by (simp add: wf_df_def colnames_def setitem_def nrows_def distinct_update list_all_update)

lemma wf_drop_columns: "wf_df df \<Longrightarrow> drop_columns df ns = Inr d \<Longrightarrow> wf_df d"
  by (fastforce simp: wf_df_iff nrows_def distinct_map_filter dest!: drop_columns_Inr)

lemma nrows_drop_columns: "drop_columns df ns = Inr d \<Longrightarrow> nrows d = nrows df"
  by (simp add: nrows_def idx_drop_columns)

lemma map_of_drop_columns:
  "drop_columns df ns = Inr d \<Longrightarrow> map_of (cols d) n = (if n \<in> set ns then None else map_of (cols df) n)"
  by (auto dest!: drop_columns_Inr simp: map_of_filter_keep map_of_filter_drop)

lemma drop_columns_present:
  "\<forall>n \<in> set ns. map_of (cols df) n \<noteq> None \<Longrightarrow>
     drop_columns df ns = Inr (df\<lparr>cols := filter (\<lambda>nc. fst nc \<notin> set ns) (cols df)\<rparr>)"
  by (simp add: drop_columns_def list_all_iff in_colnames_iff)

lemma wf_map_of_len: "wf_df df \<Longrightarrow> map_of (cols df) n = Some c \<Longrightarrow> col_len c = nrows df"
  by (auto simp: wf_df_iff dest!: map_of_SomeD)

lemma all_numeric_map_of:
  "all_numeric df \<Longrightarrow> map_of (cols df) n = Some c \<Longrightarrow> \<not> is_object c"
  by (auto simp: all_numeric_def list_all_iff dest!: map_of_SomeD)

lemma not_object_NumCol: "\<not> is_object c \<Longrightarrow> \<exists>xs. c = NumCol xs"
  by (cases c) simp_all

subsection \<open>\<open>create_features\<close>, step by step\<close>

text \<open>The association list \<open>create_features\<close> builds from numeric source columns.\<close>

lemma create_features_numeric:
  assumes "map_of (cols df) ''engine'' = Some (NumCol e)"
    and "map_of (cols df) ''transmission'' = Some (NumCol t)"
    and "map_of (cols df) ''int_col'' = Some (NumCol ic)"
    and "map_of (cols df) ''ext_col'' = Some (NumCol ec)"
    and "map_of (cols df) ''model_year'' = Some (NumCol my)"
  shows "create_features df =
    Inr (df\<lparr>cols :=
      filter (\<lambda>nc. fst nc \<notin> set [''model_year''])
        (AList.update ''car_age'' (NumCol (map (\<lambda>x. nan_op (-) (Some 2024) x) my))
          (filter (\<lambda>nc. fst nc \<notin> set [''engine'', ''transmission'', ''int_col'', ''ext_col''])
            (AList.update ''int_ext_color'' (NumCol (map (\<lambda>(x, y). nan_op (*) x y) (zip ic ec)))
              (AList.update ''engine_transmission'' (NumCol (map (\<lambda>(x, y). nan_op (*) x y) (zip e t)))
                (cols df)))))\<rparr>)"
proof -
  let ?et = "NumCol (map (\<lambda>(x, y). nan_op (*) x y) (zip e t))"
  let ?ie = "NumCol (map (\<lambda>(x, y). nan_op (*) x y) (zip ic ec))"
  let ?age = "NumCol (map (\<lambda>x. nan_op (-) (Some 2024) x) my)"
  let ?df1 = "setitem df ''engine_transmission'' ?et"
  let ?df2 = "setitem ?df1 ''int_ext_color'' ?ie"
  let ?df3 = "?df2\<lparr>cols := filter (\<lambda>nc. fst nc \<notin> set [''engine'', ''transmission'', ''int_col'', ''ext_col'']) (cols ?df2)\<rparr>"
  let ?df4 = "setitem ?df3 ''car_age'' ?age"
  have g1: "getitem df ''engine'' = Inr (NumCol e)" "getitem df ''transmission'' = Inr (NumCol t)"
    using assms by (simp_all add: getitem_Some)
  have g2: "getitem ?df1 ''int_col'' = Inr (NumCol ic)" "getitem ?df1 ''ext_col'' = Inr (NumCol ec)"
    using assms by (simp_all add: getitem_Some map_of_setitem)
  have d3: "drop_columns ?df2 [''engine'', ''transmission'', ''int_col'', ''ext_col''] = Inr ?df3"
    using assms by (intro drop_columns_present) (simp add: map_of_setitem)
  have g3: "getitem ?df3 ''model_year'' = Inr (NumCol my)"
    using assms by (simp add: getitem_Some map_of_setitem map_of_filter_keep map_of_filter_drop)
  have d4: "drop_columns ?df4 [''model_year''] =
      Inr (?df4\<lparr>cols := filter (\<lambda>nc. fst nc \<notin> set [''model_year'']) (cols ?df4)\<rparr>)"
    using assms by (intro drop_columns_present) (simp add: map_of_setitem map_of_filter_keep map_of_filter_drop)
  show ?thesis
    unfolding create_features_def Let_def g1 bind_err_Inr col_mul.simps g2 d3 g3 rsub_col.simps d4
    by (simp add: setitem_def)
qed

lemma source_numeric_cases:
  assumes "\<forall>n \<in> set source_cols. \<forall>c. map_of (cols df) n = Some c \<longrightarrow> \<not> is_object c"
    and "n \<in> set source_cols"
  shows "map_of (cols df) n = None \<or> (\<exists>xs. map_of (cols df) n = Some (NumCol xs))"
proof (cases "map_of (cols df) n")
  case None
  then show ?thesis by simp
next
  case (Some c)
  with assms have "\<not> is_object c" by blast
  with Some show ?thesis by (auto dest: not_object_NumCol)
qed

lemma create_features_KeyError:
  assumes num: "\<forall>n \<in> set source_cols. \<forall>c. map_of (cols df) n = Some c \<longrightarrow> \<not> is_object c"
    and absent: "\<not> set source_cols \<subseteq> set (colnames df)"
  shows "create_features df = Inl KeyError"
proof -
  note c = source_numeric_cases [OF num]
  have e: "map_of (cols df) ''engine'' = None \<or> (\<exists>xs. map_of (cols df) ''engine'' = Some (NumCol xs))"
    by (rule c) (simp add: source_cols_def)
  have t: "map_of (cols df) ''transmission'' = None \<or> (\<exists>xs. map_of (cols df) ''transmission'' = Some (NumCol xs))"
    by (rule c) (simp add: source_cols_def)
  have ic: "map_of (cols df) ''int_col'' = None \<or> (\<exists>xs. map_of (cols df) ''int_col'' = Some (NumCol xs))"
    by (rule c) (simp add: source_cols_def)
  have ec: "map_of (cols df) ''ext_col'' = None \<or> (\<exists>xs. map_of (cols df) ''ext_col'' = Some (NumCol xs))"
    by (rule c) (simp add: source_cols_def)
  have my: "map_of (cols df) ''model_year'' = None \<or> (\<exists>xs. map_of (cols df) ''model_year'' = Some (NumCol xs))"
    by (rule c) (simp add: source_cols_def)
  from absent have some_absent:
    "map_of (cols df) ''engine'' = None \<or> map_of (cols df) ''transmission'' = None
     \<or> map_of (cols df) ''int_col'' = None \<or> map_of (cols df) ''ext_col'' = None
     \<or> map_of (cols df) ''model_year'' = None"
    by (auto simp: source_cols_def in_colnames_iff)
  show ?thesis
  proof (cases "map_of (cols df) ''engine'' = None")
    case True
    then show ?thesis by (simp add: create_features_def getitem_None bind_err_Inl)
  next
    case e_present: False
    with e obtain e' where e': "map_of (cols df) ''engine'' = Some (NumCol e')" by blast
    show ?thesis
    proof (cases "map_of (cols df) ''transmission'' = None")
      case True
      with e' show ?thesis
        by (simp add: create_features_def getitem_None getitem_Some bind_err_Inl bind_err_Inr)
    next
      case t_present: False
      with t obtain t' where t': "map_of (cols df) ''transmission'' = Some (NumCol t')" by blast
      let ?df1 = "setitem df ''engine_transmission'' (NumCol (map (\<lambda>(x, y). nan_op (*) x y) (zip e' t')))"
      have start: "create_features df =
          bind_err (getitem ?df1 ''int_col'') (\<lambda>ic.
          bind_err (getitem ?df1 ''ext_col'') (\<lambda>ec.
          bind_err (col_mul ic ec) (\<lambda>ie.
          let df2 = setitem ?df1 ''int_ext_color'' ie in
          bind_err (drop_columns df2 [''engine'', ''transmission'', ''int_col'', ''ext_col'']) (\<lambda>df3.
          bind_err (getitem df3 ''model_year'') (\<lambda>my.
          bind_err (rsub_col 2024 my) (\<lambda>age.
          let df4 = setitem df3 ''car_age'' age in
          drop_columns df4 [''model_year'']))))))"
        using e' t' by (simp add: create_features_def getitem_Some bind_err_Inr Let_def)
      show ?thesis
      proof (cases "map_of (cols df) ''int_col'' = None")
        case True
        then show ?thesis
          unfolding start by (simp add: getitem_None map_of_setitem bind_err_Inl)
      next
        case ic_present: False
        with ic obtain ic' where ic': "map_of (cols df) ''int_col'' = Some (NumCol ic')" by blast
        show ?thesis
        proof (cases "map_of (cols df) ''ext_col'' = None")
          case True
          with ic' show ?thesis
            unfolding start
            by (simp add: getitem_None getitem_Some map_of_setitem bind_err_Inl bind_err_Inr)
        next
          case ec_present: False
          with ec obtain ec' where ec': "map_of (cols df) ''ext_col'' = Some (NumCol ec')" by blast
          from some_absent e_present t_present ic_present ec_present
          have my_absent: "map_of (cols df) ''model_year'' = None" by blast
          let ?df2 = "setitem ?df1 ''int_ext_color'' (NumCol (map (\<lambda>(x, y). nan_op (*) x y) (zip ic' ec')))"
          let ?df3 = "?df2\<lparr>cols := filter (\<lambda>nc. fst nc \<notin> set [''engine'', ''transmission'', ''int_col'', ''ext_col'']) (cols ?df2)\<rparr>"
          have d3: "drop_columns ?df2 [''engine'', ''transmission'', ''int_col'', ''ext_col''] = Inr ?df3"
            using e' t' ic' ec' by (intro drop_columns_present) (simp add: map_of_setitem)
          have g3: "getitem ?df3 ''model_year'' = Inl KeyError"
            using my_absent by (simp add: getitem_None map_of_setitem map_of_filter_keep)
          have g2: "getitem ?df1 ''int_col'' = Inr (NumCol ic')" "getitem ?df1 ''ext_col'' = Inr (NumCol ec')"
            using ic' ec' by (simp_all add: getitem_Some map_of_setitem)
          show ?thesis
            unfolding start g2 bind_err_Inr col_mul.simps Let_def d3 g3 bind_err_Inl ..
        qed
      qed
    qed
  qed
qed

lemma col_mul_len:
  "col_mul a b = Inr c \<Longrightarrow> col_len a = n \<Longrightarrow> col_len b = n \<Longrightarrow> col_len c = n \<and> \<not> is_object c"
  by (cases a; cases b) auto

lemma rsub_col_len: "rsub_col k a = Inr c \<Longrightarrow> col_len c = col_len a \<and> \<not> is_object c"
  by (cases a) auto

lemma getitem_Inr: "getitem df n = Inr c \<Longrightarrow> map_of (cols df) n = Some c"
  by (simp add: getitem_def split: option.splits)

lemma create_features_shape:
  assumes "wf_df df" "create_features df = Inr out"
  shows "wf_df out \<and> nrows out = nrows df"
proof -
  from assms(2) obtain e t et ic ec ie df3 my age where
    e: "getitem df ''engine'' = Inr e" and t: "getitem df ''transmission'' = Inr t"
    and et: "col_mul e t = Inr et"
    and ic: "getitem (setitem df ''engine_transmission'' et) ''int_col'' = Inr ic"
    and ec: "getitem (setitem df ''engine_transmission'' et) ''ext_col'' = Inr ec"
    and ie: "col_mul ic ec = Inr ie"
    and df3: "drop_columns (setitem (setitem df ''engine_transmission'' et) ''int_ext_color'' ie)
                [''engine'', ''transmission'', ''int_col'', ''ext_col''] = Inr df3"
    and my: "getitem df3 ''model_year'' = Inr my"
    and age: "rsub_col 2024 my = Inr age"
    and out: "drop_columns (setitem df3 ''car_age'' age) [''model_year''] = Inr out"
    unfolding create_features_def Let_def bind_err_eq_Inr by blast
  let ?df1 = "setitem df ''engine_transmission'' et"
  let ?df2 = "setitem ?df1 ''int_ext_color'' ie"
  note len = wf_map_of_len [OF _ getitem_Inr]
  have "col_len et = nrows df"
    using col_mul_len [OF et len [OF assms(1) e] len [OF assms(1) t]] by simp
  with assms(1) have wf1: "wf_df ?df1" by (rule wf_setitem)
  have n1: "nrows ?df1 = nrows df" by (rule nrows_setitem)
  have "col_len ie = nrows ?df1"
    using col_mul_len [OF ie len [OF wf1 ic] len [OF wf1 ec]] by simp
  with wf1 have wf2: "wf_df ?df2" by (rule wf_setitem)
  have n2: "nrows ?df2 = nrows df" using n1 by (simp add: nrows_setitem)
  have wf3: "wf_df df3" using wf2 df3 by (rule wf_drop_columns)
  have n3: "nrows df3 = nrows df" using df3 n2 by (simp add: nrows_drop_columns)
  have "col_len age = nrows df3"
    using rsub_col_len [OF age] len [OF wf3 my] by simp
  with wf3 have wf4: "wf_df (setitem df3 ''car_age'' age)" by (rule wf_setitem)
  have "wf_df out" using wf4 out by (rule wf_drop_columns)
  moreover have "nrows out = nrows df"
    using out n3 by (simp add: nrows_drop_columns nrows_setitem)
  ultimately show ?thesis ..
qed

lemma nrows_update_cols: "nrows (df\<lparr>cols := cs\<rparr>) = nrows df"
  by (simp add: nrows_def)

subsection \<open>\<open>remove_outliers_iqr\<close>, step by step\<close>

lemma iqr_mask:
  "(case iqr_bounds xs of (l, u) \<Rightarrow> nan_le l v \<and> nan_le v u)
     = within_iqr xs (case v of None \<Rightarrow> Missing | Some x \<Rightarrow> Num x)"
  by (cases "quantile xs (1 / 4)"; cases "quantile xs (3 / 4)"; cases v)
     (simp_all add: iqr_bounds_def within_iqr_def Let_def)

lemma remove_outliers_iqr_Inr:
  "remove_outliers_iqr df c = Inr out \<Longrightarrow> \<exists>xs. map_of (cols df) c = Some (NumCol xs)"
proof (cases "getitem df c")
  case (Inl e)
  assume "remove_outliers_iqr df c = Inr out"
  with Inl show ?thesis by (simp add: remove_outliers_iqr_def bind_err_Inl)
next
  case (Inr col)
  assume a: "remove_outliers_iqr df c = Inr out"
  show ?thesis
  proof (cases col)
    case (NumCol xs)
    with Inr show ?thesis by (auto dest: getitem_Inr)
  next
    case (ObjCol ss)
    with Inr a show ?thesis by (simp add: remove_outliers_iqr_def bind_err_Inr)
  qed
qed

lemma remove_outliers_iqr_numeric:
  assumes "map_of (cols df) c = Some (NumCol xs)"
  shows "remove_outliers_iqr df c =
     Inr \<lparr>idx = take_rows (filter (\<lambda>i. within_iqr xs (cell_at (NumCol xs) i)) [0..<length xs]) (idx df),
          cols = map (\<lambda>nc. (fst nc,
                   col_take (filter (\<lambda>i. within_iqr xs (cell_at (NumCol xs) i)) [0..<length xs]) (snd nc)))
                   (cols df)\<rparr>"
proof -
  obtain l u where lu: "iqr_bounds xs = (l, u)" by (cases "iqr_bounds xs")
  have "filter (\<lambda>i. map (\<lambda>v. nan_le l v \<and> nan_le v u) xs ! i) [0..<length xs]
      = filter (\<lambda>i. within_iqr xs (cell_at (NumCol xs) i)) [0..<length xs]"
    using iqr_mask [where xs = xs] lu by (intro filter_cong) simp_all
  then show ?thesis
    using assms lu
    by (simp add: remove_outliers_iqr_def getitem_Some bind_err_Inr Let_def)
qed

lemma map_of_index:
  "map_of al k = Some v \<Longrightarrow>
     index_of k (map fst al) < length al \<and> al ! index_of k (map fst al) = (k, v)"
  by (induction al) (auto split: if_splits)


lemma col_len_col_take: "col_len (col_take keep c) = length keep"
  by (cases c) (simp_all add: take_rows_def)

lemma is_object_col_take: "is_object (col_take keep c) = is_object c"
  by (cases c) simp_all


lemma remove_outliers_iqr_shape:
  assumes "wf_df df" "remove_outliers_iqr df c = Inr out"
  shows "wf_df out \<and> colnames out = colnames df \<and> nrows out \<le> nrows df
         \<and> (all_numeric df \<longrightarrow> all_numeric out)"
proof -
  from remove_outliers_iqr_Inr [OF assms(2)] obtain xs
    where xs: "map_of (cols df) c = Some (NumCol xs)" by blast
  let ?keep = "filter (\<lambda>i. within_iqr xs (cell_at (NumCol xs) i)) [0..<length xs]"
  from assms(2) have out: "out = \<lparr>idx = take_rows ?keep (idx df),
          cols = map (\<lambda>nc. (fst nc, col_take ?keep (snd nc))) (cols df)\<rparr>"
    unfolding remove_outliers_iqr_numeric [OF xs] by simp
  have "length xs = nrows df" using wf_map_of_len [OF assms(1) xs] by simp
  moreover have "length ?keep \<le> length [0..<length xs]" by (rule length_filter_le)
  ultimately have le: "length ?keep \<le> nrows df" by simp
  show ?thesis
    using assms(1) le unfolding out
    by (simp add: wf_df_iff colnames_def nrows_def take_rows_def comp_def col_len_col_take
          all_numeric_def list_all_iff is_object_col_take)
qed

subsection \<open>The shape of the result of \<open>preprocess_data\<close>\<close>

lemma wf_drop_id: "wf_df df \<Longrightarrow> drop_id df = Inr d \<Longrightarrow> wf_df d \<and> nrows d = nrows df"
  by (auto simp: drop_id_def split: if_splits dest: wf_drop_columns nrows_drop_columns)

lemma all_numeric_setitem:
  "all_numeric df \<Longrightarrow> \<not> is_object c \<Longrightarrow> all_numeric (setitem df n c)"
  by (simp add: all_numeric_def setitem_def list_all_update)

lemma all_numeric_drop_columns:
  "all_numeric df \<Longrightarrow> drop_columns df ns = Inr d \<Longrightarrow> all_numeric d"
  by (auto simp: all_numeric_def list_all_iff dest!: drop_columns_Inr)

lemma create_features_all_numeric:
  assumes "all_numeric df" "create_features df = Inr out"
  shows "all_numeric out"
proof -
  from assms(2) obtain e t et ic ec ie df3 my age where
    et: "col_mul e t = Inr et"
    and ie: "col_mul ic ec = Inr ie"
    and df3: "drop_columns (setitem (setitem df ''engine_transmission'' et) ''int_ext_color'' ie)
                [''engine'', ''transmission'', ''int_col'', ''ext_col''] = Inr df3"
    and age: "rsub_col 2024 my = Inr age"
    and out: "drop_columns (setitem df3 ''car_age'' age) [''model_year''] = Inr out"
    unfolding create_features_def Let_def bind_err_eq_Inr by blast
  have n_et: "\<not> is_object et" using et by (cases e; cases t) auto
  have n_ie: "\<not> is_object ie" using ie by (cases ic; cases ec) auto
  have n_age: "\<not> is_object age" using age by (cases my) auto
  have "all_numeric (setitem (setitem df ''engine_transmission'' et) ''int_ext_color'' ie)"
    using assms(1) n_et n_ie by (intro all_numeric_setitem)
  then have "all_numeric df3" using df3 by (rule all_numeric_drop_columns)
  then have "all_numeric (setitem df3 ''car_age'' age)" using n_age by (rule all_numeric_setitem)
  then show ?thesis using out by (rule all_numeric_drop_columns)
qed

lemma wf_reset_index: "wf_df df \<Longrightarrow> wf_df (reset_index df)"
  by (simp add: wf_df_iff reset_index_def nrows_def nrows_range_index)

lemma preprocess_inference_shape:
  assumes "wf_df df" "preprocess_data est self df False = Inr out"
  shows "wf_df out \<and> nrows out = nrows df \<and> all_numeric out"
proof -
  from preprocess_data_inference_Inr [OF assms(2)] obtain df1 df2 df3 where
    s: "drop_id df = Inr df1" "knn_impute est df1 25 = Inr df2"
       "encode_categoricals (ordinal_encoder self) df2 = Inr df3" "create_features df3 = Inr out"
    by blast
  from wf_drop_id [OF assms(1) s(1)] have 1: "wf_df df1" "nrows df1 = nrows df" by simp_all
  from knn_impute_shape [OF 1(1) s(2)] have 2: "wf_df df2" "nrows df2 = nrows df1" by simp_all
  from encode_categoricals_shape [OF 2(1) s(3)]
  have 3: "wf_df df3" "nrows df3 = nrows df2" "all_numeric df3" by simp_all
  from create_features_shape [OF 3(1) s(4)] have 4: "wf_df out" "nrows out = nrows df3" by simp_all
  from create_features_all_numeric [OF 3(3) s(4)] have "all_numeric out" .
  with 1 2 3 4 show ?thesis by simp
qed

lemma preprocess_training_shape:
  assumes "wf_df df" "preprocess_data est self df True = Inr out"
  shows "wf_df out \<and> nrows out \<le> nrows df \<and> all_numeric out \<and> idx out = range_index (nrows out)"
proof -
  from preprocess_data_training_Inr [OF assms(2)] obtain df1 df2 df3 df4 df5 df6 where
    s: "drop_id df = Inr df1" "knn_impute est df1 25 = Inr df2"
       "encode_categoricals (ordinal_encoder self) df2 = Inr df3" "create_features df3 = Inr df4"
       "remove_outliers_iqr df4 ''milage'' = Inr df5" "remove_outliers_iqr df5 ''price'' = Inr df6"
       "out = reset_index df6"
    by blast
  from wf_drop_id [OF assms(1) s(1)] have 1: "wf_df df1" "nrows df1 = nrows df" by simp_all
  from knn_impute_shape [OF 1(1) s(2)] have 2: "wf_df df2" "nrows df2 = nrows df1" by simp_all
  from encode_categoricals_shape [OF 2(1) s(3)]
  have 3: "wf_df df3" "nrows df3 = nrows df2" "all_numeric df3" by simp_all
  from create_features_shape [OF 3(1) s(4)] have 4: "wf_df df4" "nrows df4 = nrows df3" by simp_all
  from create_features_all_numeric [OF 3(3) s(4)] have num4: "all_numeric df4" .
  from remove_outliers_iqr_shape [OF 4(1) s(5)] num4
  have 5: "wf_df df5" "nrows df5 \<le> nrows df4" "all_numeric df5" by simp_all
  from remove_outliers_iqr_shape [OF 5(1) s(6)] 5(3)
  have 6: "wf_df df6" "nrows df6 \<le> nrows df5" "all_numeric df6" by simp_all
  have "wf_df out" unfolding s(7) using 6(1) by (rule wf_reset_index)
  moreover have "nrows out = nrows df6" unfolding s(7) by (simp add: reset_index_def nrows_def nrows_range_index)
  moreover have "all_numeric out" unfolding s(7) using 6(3) by (simp add: reset_index_def all_numeric_def)
  moreover have "idx out = range_index (nrows out)"
    unfolding s(7) by (simp add: reset_index_def nrows_def nrows_range_index)
  ultimately show ?thesis using 1 2 3 4 5 6 by simp
qed

subsection \<open>Missing values after \<open>knn_impute\<close>\<close>

lemma knn_impute_column:
  assumes "knn_impute est df k = Inr out" "j < length (cols df)"
  shows "cols out ! j =
    (fst (cols df ! j),
     case snd (cols df ! j) of
       NumCol xs \<Rightarrow> NumCol (map Some (fill_column est (nat k)
                                     (map (\<lambda>nc. encode_for_knn (snd nc)) (cols df)) j))
     | ObjCol ss \<Rightarrow> if all_missing ss then NumCol (map (\<lambda>x. None) ss) else ObjCol ss)"
proof -
  let ?M = "map (\<lambda>nc. encode_for_knn (snd nc)) (cols df)"
  from knn_impute_Inr [OF assms(1)] assms(2) have
    "cols out ! j = (fst (cols df ! j), restore_column (snd (cols df ! j)) (fill_column est (nat k) ?M j))"
    by simp
  moreover have "restore_column (snd (cols df ! j)) (fill_column est (nat k) ?M j) =
     (case snd (cols df ! j) of
       NumCol xs \<Rightarrow> NumCol (map Some (fill_column est (nat k) ?M j))
     | ObjCol ss \<Rightarrow> if all_missing ss then NumCol (map (\<lambda>x. None) ss) else ObjCol ss)"
  proof (cases "snd (cols df ! j)")
    case (NumCol xs)
    then show ?thesis by simp
  next
    case (ObjCol ss)
    with assms(2) have "?M ! j = encode_for_knn (ObjCol ss)" by simp
    from restore_fill_object [OF this] ObjCol show ?thesis by simp
  qed
  ultimately show ?thesis by simp
qed

lemma all_missing_has_missing: "all_missing ss \<Longrightarrow> ss \<noteq> [] \<Longrightarrow> None \<in> set ss"
  by (cases ss) (auto simp: all_missing_def)

lemma knn_impute_column_missing:
  assumes "wf_df df" "knn_impute est df k = Inr out" "j < length (cols df)"
  shows "col_has_missing (snd (cols out ! j)) \<longleftrightarrow>
           is_object (snd (cols df ! j)) \<and> col_has_missing (snd (cols df ! j))"
proof (cases "snd (cols df ! j)")
  case (NumCol xs)
  with knn_impute_column [OF assms(2,3)] show ?thesis by simp
next
  case (ObjCol ss)
  from knn_impute_Inr [OF assms(2)] have "0 < nrows df" by simp
  with wf_col_len [OF assms(1,3)] ObjCol have "ss \<noteq> []" by auto
  then have "None \<in> (\<lambda>x. None) ` set ss" by (cases ss) auto
  with knn_impute_column [OF assms(2,3)] ObjCol \<open>ss \<noteq> []\<close> show ?thesis
    by (auto simp: all_missing_has_missing)
qed

lemma knn_impute_has_missing:
  assumes "wf_df df" "knn_impute est df k = Inr out"
  shows "colnames out = colnames df
     \<and> (has_missing out \<longleftrightarrow> list_ex (\<lambda>nc. is_object (snd nc) \<and> col_has_missing (snd nc)) (cols df))"
proof -
  from knn_impute_shape [OF assms] have names: "colnames out = colnames df" by simp
  then have len: "length (cols out) = length (cols df)"
    by (simp add: colnames_def) (metis length_map)
  have "has_missing out \<longleftrightarrow> (\<exists>j < length (cols out). col_has_missing (snd (cols out ! j)))"
    by (simp add: has_missing_def list_ex_length)
  also have "\<dots> \<longleftrightarrow> (\<exists>j < length (cols df).
        is_object (snd (cols df ! j)) \<and> col_has_missing (snd (cols df ! j)))"
    using knn_impute_column_missing [OF assms] len by auto
  also have "\<dots> \<longleftrightarrow> list_ex (\<lambda>nc. is_object (snd nc) \<and> col_has_missing (snd nc)) (cols df)"
    by (simp add: list_ex_length)
  finally show ?thesis using names by simp
qed

subsection \<open>The encoding step\<close>

lemma map_of_assign_encoded:
  "distinct (map fst cs) \<Longrightarrow> map_of cs n = Some (ObjCol ss) \<Longrightarrow>
   length (filter (\<lambda>nc. is_object (snd nc)) cs) \<le> length arr \<Longrightarrow>
   map_of (assign_encoded cs arr) n =
     Some (NumCol (arr ! index_of n (map fst (filter (\<lambda>nc. is_object (snd nc)) cs))))"
proof (induction cs arr rule: assign_encoded.induct)
  case (1 arr)
  then show ?case by simp
next
  case (2 m xs rest arr)
  then show ?case by (auto split: if_splits)
next
  case (3 m ss' rest)
  then show ?case by simp
next
  case (4 m ss' rest a arr)
  then show ?case by (auto split: if_splits)
qed

lemma object_column_index:
  assumes "distinct (map fst cs)" "map_of cs n = Some (ObjCol ss)"
  shows "index_of n (map fst (filter (\<lambda>nc. is_object (snd nc)) cs))
           < length (filter (\<lambda>nc. is_object (snd nc)) cs)
       \<and> filter (\<lambda>nc. is_object (snd nc)) cs
           ! index_of n (map fst (filter (\<lambda>nc. is_object (snd nc)) cs)) = (n, ObjCol ss)"
proof -
  have "map_of (filter (\<lambda>(k, c). is_object c) cs) n = Some (ObjCol ss)"
    using assms(2) by (intro map_of_filter_in) simp_all
  then have "map_of (filter (\<lambda>nc. is_object (snd nc)) cs) n = Some (ObjCol ss)"
    by (simp add: case_prod_unfold)
  then show ?thesis by (rule map_of_index)
qed

lemma encoder_transform_sentinel:
  assumes "categories_fit enc = Some cats"
    and "handle_unknown enc = UseEncodedValue u"
    and "feature_names_in enc = None \<or> feature_names_in enc = Some names"
    and "length cats = length X"
  shows "encoder_transform enc names X =
           Inr (map (\<lambda>(cs, x). map (encode_value (UseEncodedValue u) cs) x) (zip cats X))"
  using assms by (auto simp: encoder_transform_def)

lemma encoder_transform_unfitted:
  "categories_fit enc = None \<Longrightarrow> encoder_transform enc names X = Inl NotFittedError"
  by (simp add: encoder_transform_def)

lemma encode_categoricals_unfitted:
  "categories_fit enc = None \<Longrightarrow> object_names df \<noteq> [] \<Longrightarrow>
     encode_categoricals enc df = Inl NotFittedError"
  by (simp add: encode_categoricals_def object_names_def encoder_transform_unfitted bind_err_Inl)

subsection \<open>The scaler\<close>

lemma observed_Cons_None: "observed (None # xs) = observed xs"
  by (simp add: observed_def)

lemma observed_Cons_Some: "observed (Some x # xs) = x # observed xs"
  by (simp add: observed_def)

lemma observed_Nil: "observed [] = []"
  by (simp add: observed_def)

lemma observed_all_None: "observed (map (\<lambda>x. None) xs) = []"
  by (induction xs) (simp_all add: observed_Nil observed_Cons_None)

lemma observed_scaled_None:
  "observed (map (\<lambda>x. nan_op f (nan_op g x None) s) xs) = []"
  by (induction xs) (simp_all add: observed_Nil observed_Cons_None)

lemma observed_scaled_Some:
  "observed (map (\<lambda>x. nan_op (/) (nan_op (-) x (Some m)) (Some s)) xs)
     = map (\<lambda>x. (x - m) / s) (observed xs)"
proof (induction xs)
  case Nil
  then show ?case by (simp add: observed_Nil)
next
  case (Cons a xs)
  then show ?case
    by (cases a) (simp_all add: observed_Cons_None observed_Cons_Some)
qed

lemma sum_list_centered:
  "sum_list (map (\<lambda>x. (x - m) / s) vs) = (sum_list vs - real (length vs) * m) / s"
  by (induction vs) (simp_all add: algebra_simps add_divide_distrib diff_divide_distrib)

lemma scaled_sum_zero:
  "sum_list (observed (scaler_transform_column (scaler_fit_column xs) xs)) = 0"
proof (cases "observed xs = []")
  case True
  then show ?thesis
    by (simp add: scaler_fit_column_def scaler_transform_column_def observed_all_None)
next
  case False
  let ?vs = "observed xs"
  let ?m = "mean_list ?vs"
  obtain s where fit: "scaler_fit_column xs = (Some ?m, Some s)"
    using False by (simp add: scaler_fit_column_def Let_def)
  from False have "real (length ?vs) \<noteq> 0" by simp
  then have "sum_list ?vs - real (length ?vs) * ?m = 0"
    by (simp add: mean_list_def)
  then show ?thesis
    by (simp add: fit scaler_transform_column_def observed_scaled_Some sum_list_centered)
qed

lemma observed_complete: "None \<notin> set xs \<Longrightarrow> observed xs = map the xs"
proof (induction xs)
  case Nil
  then show ?case by (simp add: observed_Nil)
next
  case (Cons a xs)
  then show ?case by (cases a) (simp_all add: observed_Cons_Some)
qed

lemma length_scaler_transform_column: "length (scaler_transform_column ms xs) = length xs"
  by (simp add: scaler_transform_column_def)

subsection \<open>Assignment of the scaled columns\<close>

lemma idx_loc_assign: "idx (loc_assign df ns arr) = idx df"
  by (induction df ns arr rule: loc_assign.induct) (simp_all add: idx_setitem)

lemma map_of_loc_assign_other:
  "n \<notin> set ns \<Longrightarrow> map_of (cols (loc_assign df ns arr)) n = map_of (cols df) n"
  by (induction df ns arr rule: loc_assign.induct) (auto simp: map_of_setitem)

lemma map_of_loc_assign:
  "distinct ns \<Longrightarrow> length arr = length ns \<Longrightarrow> j < length ns \<Longrightarrow>
     map_of (cols (loc_assign df ns arr)) (ns ! j) = Some (NumCol (arr ! j))"
proof (induction df ns arr arbitrary: j rule: loc_assign.induct)
  case (1 df n ns a arr)
  show ?case
  proof (cases j)
    case 0
    with 1 show ?thesis by (simp add: map_of_loc_assign_other map_of_setitem)
  next
    case (Suc j')
    with 1 show ?thesis by simp
  qed
qed simp_all

lemma getitems_Inr:
  "getitems df ns = Inr cs \<Longrightarrow>
     length cs = length ns \<and> (\<forall>j < length ns. map_of (cols df) (ns ! j) = Some (cs ! j))"
proof (induction ns arbitrary: cs)
  case Nil
  then show ?case by simp
next
  case (Cons n ns)
  from Cons.prems obtain c cs' where c: "getitem df n = Inr c"
    and cs': "getitems df ns = Inr cs'" and cs: "cs = c # cs'"
    by (auto simp: bind_err_eq_Inr)
  from Cons.IH [OF cs'] c cs show ?case
    by (auto simp: nth_Cons' dest: getitem_Inr)
qed

lemma scaler_fit_transform_Inr:
  assumes "scaler_fit_transform n cs = Inr (params, arr)"
  shows "0 < n \<and> length arr = length cs
      \<and> (\<forall>j < length cs. arr ! j = scaler_transform_column (scaler_fit_column (encode_for_knn (cs ! j)))
                                      (encode_for_knn (cs ! j)))"
  using assms by (auto simp: scaler_fit_transform_def Let_def split: if_splits)

lemma prepare_for_training_Inr:
  assumes "prepare_for_training est self df target True = Inr (self', X, y)"
  shows "\<exists>p cs params arr ycol.
           preprocess_data est self df True = Inr p
         \<and> getitems p numeric_cols = Inr cs
         \<and> scaler_fit_transform (nrows p) cs = Inr (params, arr)
         \<and> self' = self\<lparr>scaler := Some params\<rparr>
         \<and> drop_columns (loc_assign p numeric_cols arr) [target] = Inr X
         \<and> getitem (loc_assign p numeric_cols arr) target = Inr ycol
         \<and> y = (idx (loc_assign p numeric_cols arr), ycol)"
  using assms
  by (auto simp: prepare_for_training_def bind_err_eq_Inr split: prod.splits)

subsection \<open>The example tables, evaluated\<close>


lemma ex_prices_order:
  "bind_err (remove_outliers_iqr ex_prices ''milage'') (\<lambda>d. remove_outliers_iqr d ''price'')
     = Inr \<lparr>idx = [10, 11, 12],
            cols = [(''milage'', NumCol [Some 1000, Some 2000, Some 3000]),
                    (''price'', NumCol [Some 10000, Some 10000, Some 20000])]\<rparr>
   \<and> bind_err (remove_outliers_iqr ex_prices ''price'') (\<lambda>d. remove_outliers_iqr d ''milage'')
     = Inr \<lparr>idx = [10, 11, 13],
            cols = [(''milage'', NumCol [Some 1000, Some 2000, Some 1000000]),
                    (''price'', NumCol [Some 10000, Some 10000, Some 10000])]\<rparr>"
  by code_simp

lemma ex_query_imputed:
  "knn_impute knn_estimate ex_query 25
   = Inr \<lparr>idx = [0, 1, 2],
        cols =
          [(''brand'', ObjCol [Some ''bmw'', Some ''tesla'', None]),
           (''model'', ObjCol [Some ''x5'', Some ''a4'', Some ''focus'']),
           (''model_year'', NumCol [Some 2020, Some 2021, Some 2018]),
           (''milage'', NumCol [Some 2000, Some 2500, Some 3000]),
           (''engine'', ObjCol [Some ''v8'', Some ''v6'', Some ''v6'']),
           (''transmission'', ObjCol [Some ''manual'', Some ''auto'', Some ''auto'']),
           (''ext_col'', ObjCol [Some ''white'', Some ''black'', Some ''black'']),
           (''int_col'', ObjCol [Some ''beige'', Some ''black'', Some ''black''])]\<rparr>"
  by code_simp

lemma ex_query_inference:
  "preprocess_data knn_estimate (DataPreprocessor_init (Some ex_encoder)) ex_query False
   = Inr \<lparr>idx = [0, 1, 2],
        cols =
          [(''brand'', NumCol [Some 1, Some (- 1), Some (- 1)]),
           (''model'', NumCol [Some 3, Some 0, Some 2]),
           (''milage'', NumCol [Some 2000, Some 2500, Some 3000]),
           (''engine_transmission'', NumCol [Some 1, Some 0, Some 0]),
           (''int_ext_color'', NumCol [Some 0, Some 0, Some 0]),
           (''car_age'', NumCol [Some 4, Some 3, Some 6])]\<rparr>"
  by code_simp

lemma ex_query_encoded:
  "encode_categoricals (ordinal_encoder (DataPreprocessor_init (Some ex_encoder))) ex_query
   = Inr \<lparr>idx = [7, 9, 11],
        cols =
          [(''brand'', NumCol [Some 1, Some (- 1), Some (- 1)]),
           (''model'', NumCol [Some 3, Some 0, Some 2]),
           (''model_year'', NumCol [Some 2020, Some 2021, Some 2018]),
           (''milage'', NumCol [Some 2000, None, Some 3000]),
           (''engine'', NumCol [Some 1, Some 0, Some 0]),
           (''transmission'', NumCol [Some 1, Some 0, Some 0]),
           (''ext_col'', NumCol [Some 1, Some 0, Some 0]),
           (''int_col'', NumCol [Some 0, Some 1, Some 1])]\<rparr>"
  by code_simp

lemma ex_encoded_features:
  "create_features ex_encoded
   = Inr \<lparr>idx = [0, 1],
        cols =
          [(''milage'', NumCol [Some 1000, Some 52000]),
           (''engine_transmission'', NumCol [Some 6, None]),
           (''int_ext_color'', NumCol [Some 0, Some 10]),
           (''car_age'', NumCol [Some 4, Some 14])]\<rparr>"
  by code_simp


lemma ex_pair_training:
  "preprocess_data knn_estimate (DataPreprocessor_init (Some ex_encoder)) ex_pair True
   = Inr \<lparr>idx = [0, 1],
        cols =
          [(''brand'', NumCol [Some 0, Some 2]),
           (''model'', NumCol [Some 0, Some 2]),
           (''milage'', NumCol [Some 1000, Some 1002]),
           (''price'', NumCol [Some 10000, Some 30000]),
           (''engine_transmission'', NumCol [Some 1, Some 1]),
           (''int_ext_color'', NumCol [Some 1, Some (- 1)]),
           (''car_age'', NumCol [Some 5, Some 3])]\<rparr>"
  by code_simp

lemma wf_examples:
  "wf_df ex_cars" "wf_df ex_query" "wf_df ex_pair" "wf_df ex_encoded" "wf_df ex_prices"
  by code_simp+

lemma ex_pair_prepared:
  "prepare_for_training knn_estimate (DataPreprocessor_init (Some ex_encoder)) ex_pair ''price'' True
   = Inr (\<lparr>ordinal_encoder = ex_encoder,
           scaler = Some [(Some 1, Some 1), (Some 1, Some 1), (Some 1001, Some 1),
                          (Some 0, Some 1), (Some 1, Some 1)]\<rparr>,
          \<lparr>idx = [0, 1],
           cols =
             [(''brand'', NumCol [Some (- 1), Some 1]),
              (''model'', NumCol [Some (- 1), Some 1]),
              (''milage'', NumCol [Some (- 1), Some 1]),
              (''engine_transmission'', NumCol [Some 0, Some 0]),
              (''int_ext_color'', NumCol [Some 1, Some (- 1)]),
              (''car_age'', NumCol [Some 5, Some 3])]\<rparr>,
          ([0, 1], NumCol [Some 10000, Some 30000]))"
  unfolding prepare_for_training_def ex_pair_training bind_err_Inr
  by (simp add: numeric_cols_def getitem_def bind_err_def scaler_fit_transform_def nrows_def
        scaler_fit_column_def scaler_transform_column_def observed_def mean_list_def
        setitem_def drop_columns_def colnames_def DataPreprocessor_init_def)




subsection \<open>Completeness of the columns through the pipeline\<close>

lemma has_missing_iff:
  "has_missing df \<longleftrightarrow> (\<exists>nc \<in> set (cols df). col_has_missing (snd nc))"
  by (simp add: has_missing_def list_ex_iff)

lemma categories_observed_drop_id:
  "categories_observed df \<Longrightarrow> drop_id df = Inr d \<Longrightarrow> categories_observed d"
  by (auto simp: drop_id_def categories_observed_def list_all_iff
        split: if_splits dest!: drop_columns_Inr)

lemma knn_impute_numeric_complete:
  assumes "wf_df df" "categories_observed df" "knn_impute est df k = Inr out"
    and "nc \<in> set (cols out)" "\<not> is_object (snd nc)"
  shows "\<not> col_has_missing (snd nc)"
proof -
  from knn_impute_shape [OF assms(1,3)] have "length (cols out) = length (cols df)"
    by (simp add: colnames_def) (metis length_map)
  with assms(4) obtain j where j: "j < length (cols df)" and nc: "nc = cols out ! j"
    by (auto simp: in_set_conv_nth)
  show ?thesis
  proof (cases "snd (cols df ! j)")
    case (NumCol xs)
    with knn_impute_column [OF assms(3) j] nc show ?thesis by simp
  next
    case (ObjCol ss)
    from assms(2) j have "case snd (cols df ! j) of ObjCol ss \<Rightarrow> \<not> all_missing ss | NumCol xs \<Rightarrow> True"
      by (simp add: categories_observed_def list_all_length)
    with ObjCol have "\<not> all_missing ss" by simp
    with knn_impute_column [OF assms(3) j] nc ObjCol assms(5) show ?thesis by simp
  qed
qed

lemma None_notin_map:
  assumes "\<And>x. x \<in> set xs \<Longrightarrow> f x \<noteq> None"
  shows "None \<notin> set (map f xs)"
proof
  assume "None \<in> set (map f xs)"
  then obtain x where "x \<in> set xs" "f x = None" by (auto simp: image_iff)
  with assms show False by blast
qed

lemma present_cases: "x \<in> set xs \<Longrightarrow> None \<notin> set xs \<Longrightarrow> \<exists>v. x = Some v"
  by (cases x) auto

lemma encode_value_complete:
  "pol \<noteq> UseEncodedValue None \<Longrightarrow> pol = RaiseOnUnknown \<longrightarrow> s \<in> set cats \<Longrightarrow>
     encode_value pol cats s \<noteq> None"
  by (cases pol) (auto simp: encode_value_def)

lemma encoder_transform_complete:
  assumes "encoder_transform enc names X = Inr arr" "handle_unknown enc \<noteq> UseEncodedValue None"
  shows "\<forall>a \<in> set arr. None \<notin> set a"
proof -
  from assms(1) obtain cats where cats: "categories_fit enc = Some cats"
    and arr: "arr = map (\<lambda>(cs, x). map (encode_value (handle_unknown enc) cs) x) (zip cats X)"
    and seen: "handle_unknown enc = RaiseOnUnknown \<longrightarrow>
                 \<not> list_ex (\<lambda>(cs, x). list_ex (\<lambda>s. s \<notin> set cs) x) (zip cats X)"
    by (auto simp: encoder_transform_def split: option.splits if_splits)
  have "encode_value (handle_unknown enc) cs s \<noteq> None"
    if "(cs, x) \<in> set (zip cats X)" "s \<in> set x" for cs x s
  proof (rule encode_value_complete [OF assms(2)], rule impI)
    assume "handle_unknown enc = RaiseOnUnknown"
    with seen that show "s \<in> set cs" by (auto simp: list_ex_iff)
  qed
  then have "None \<notin> set (map (encode_value (handle_unknown enc) cs) x)"
    if "(cs, x) \<in> set (zip cats X)" for cs x
    using that by (intro None_notin_map) blast
  then show ?thesis unfolding arr by auto
qed

lemma complete_assign_encoded:
  "\<forall>a \<in> set arr. None \<notin> set a \<Longrightarrow>
   \<forall>nc \<in> set cs. \<not> is_object (snd nc) \<longrightarrow> \<not> col_has_missing (snd nc) \<Longrightarrow>
   length arr = length (filter (\<lambda>nc. is_object (snd nc)) cs) \<Longrightarrow>
   \<forall>nc \<in> set (assign_encoded cs arr). \<not> col_has_missing (snd nc)"
  by (induction cs arr rule: assign_encoded.induct) auto

lemma encode_categoricals_complete:
  assumes "encode_categoricals enc df = Inr d" "handle_unknown enc \<noteq> UseEncodedValue None"
    and "\<forall>nc \<in> set (cols df). \<not> is_object (snd nc) \<longrightarrow> \<not> col_has_missing (snd nc)"
  shows "\<not> has_missing d"
proof (cases "filter (\<lambda>nc. is_object (snd nc)) (cols df) = []")
  case True
  then have "\<forall>nc \<in> set (cols df). \<not> is_object (snd nc)" by (simp add: filter_empty_conv)
  with True assms show ?thesis by (simp add: encode_categoricals_def has_missing_iff)
next
  case False
  let ?cat = "filter (\<lambda>nc. is_object (snd nc)) (cols df)"
  from False assms(1) obtain arr where
    arr: "encoder_transform enc (map fst ?cat) (map (\<lambda>nc. astype_str (snd nc)) ?cat) = Inr arr"
    and d: "d = df\<lparr>cols := assign_encoded (cols df) arr\<rparr>"
    by (auto simp: encode_categoricals_def Let_def bind_err_eq_Inr)
  from encoder_transform_shape [OF arr] have len: "length arr = length ?cat" by simp
  from complete_assign_encoded [OF encoder_transform_complete [OF arr assms(2)] assms(3) len]
  show ?thesis unfolding d by (simp add: has_missing_iff)
qed

lemma col_mul_complete:
  "col_mul a b = Inr c \<Longrightarrow> \<not> col_has_missing a \<Longrightarrow> \<not> col_has_missing b \<Longrightarrow> \<not> col_has_missing c"
proof (cases a; cases b)
  fix xs ys assume ab: "a = NumCol xs" "b = NumCol ys"
  assume "col_mul a b = Inr c" "\<not> col_has_missing a" "\<not> col_has_missing b"
  then have c: "c = NumCol (map (\<lambda>(x, y). nan_op (*) x y) (zip xs ys))"
    and xs: "None \<notin> set xs" and ys: "None \<notin> set ys" using ab by auto
  have "(case p of (x, y) \<Rightarrow> nan_op (*) x y) \<noteq> None" if "p \<in> set (zip xs ys)" for p
  proof -
    obtain x y where p: "p = (x, y)" by (cases p)
    with that have "x \<in> set xs" "y \<in> set ys" by (auto dest: set_zip_leftD set_zip_rightD)
    with xs ys obtain x' y' where "x = Some x'" "y = Some y'"
      by (blast dest: present_cases)
    with p show ?thesis by simp
  qed
  then have "None \<notin> set (map (\<lambda>(x, y). nan_op (*) x y) (zip xs ys))"
    by (rule None_notin_map)
  then show "\<not> col_has_missing c" unfolding c by simp
qed auto

lemma rsub_col_complete:
  "rsub_col k a = Inr c \<Longrightarrow> \<not> col_has_missing a \<Longrightarrow> \<not> col_has_missing c"
proof (cases a)
  case (NumCol xs)
  assume "rsub_col k a = Inr c" "\<not> col_has_missing a"
  with NumCol have c: "c = NumCol (map (\<lambda>x. nan_op (-) (Some k) x) xs)" and xs: "None \<notin> set xs"
    by auto
  have "nan_op (-) (Some k) x \<noteq> None" if "x \<in> set xs" for x
    using present_cases [OF that xs] by auto
  then have "None \<notin> set (map (\<lambda>x. nan_op (-) (Some k) x) xs)"
    by (rule None_notin_map)
  then show ?thesis unfolding c by simp
qed auto

lemma complete_setitem:
  "\<not> has_missing df \<Longrightarrow> \<not> col_has_missing c \<Longrightarrow> \<not> has_missing (setitem df n c)"
  using list_all_update [of "\<lambda>nc. \<not> col_has_missing (snd nc)" "cols df" n c]
  by (simp add: has_missing_iff setitem_def list_all_iff)

lemma complete_drop_columns:
  "\<not> has_missing df \<Longrightarrow> drop_columns df ns = Inr d \<Longrightarrow> \<not> has_missing d"
  by (auto simp: has_missing_iff dest!: drop_columns_Inr)

lemma complete_getitem:
  "\<not> has_missing df \<Longrightarrow> getitem df n = Inr c \<Longrightarrow> \<not> col_has_missing c"
  by (auto simp: has_missing_iff dest!: getitem_Inr map_of_SomeD)

lemma create_features_complete:
  assumes "\<not> has_missing df" "create_features df = Inr out"
  shows "\<not> has_missing out"
proof -
  from assms(2) obtain e t et ic ec ie df3 my age where
    e: "getitem df ''engine'' = Inr e" and t: "getitem df ''transmission'' = Inr t"
    and et: "col_mul e t = Inr et"
    and ic: "getitem (setitem df ''engine_transmission'' et) ''int_col'' = Inr ic"
    and ec: "getitem (setitem df ''engine_transmission'' et) ''ext_col'' = Inr ec"
    and ie: "col_mul ic ec = Inr ie"
    and df3: "drop_columns (setitem (setitem df ''engine_transmission'' et) ''int_ext_color'' ie)
                [''engine'', ''transmission'', ''int_col'', ''ext_col''] = Inr df3"
    and my: "getitem df3 ''model_year'' = Inr my"
    and age: "rsub_col 2024 my = Inr age"
    and out: "drop_columns (setitem df3 ''car_age'' age) [''model_year''] = Inr out"
    unfolding create_features_def Let_def bind_err_eq_Inr by blast
  let ?df1 = "setitem df ''engine_transmission'' et"
  let ?df2 = "setitem ?df1 ''int_ext_color'' ie"
  note g = complete_getitem
  have "\<not> col_has_missing et"
    using et g [OF assms(1) e] g [OF assms(1) t] by (rule col_mul_complete)
  with assms(1) have c1: "\<not> has_missing ?df1" by (rule complete_setitem)
  have "\<not> col_has_missing ie"
    using ie g [OF c1 ic] g [OF c1 ec] by (rule col_mul_complete)
  with c1 have c2: "\<not> has_missing ?df2" by (rule complete_setitem)
  from c2 df3 have c3: "\<not> has_missing df3" by (rule complete_drop_columns)
  have "\<not> col_has_missing age" using age g [OF c3 my] by (rule rsub_col_complete)
  with c3 have "\<not> has_missing (setitem df3 ''car_age'' age)" by (rule complete_setitem)
  then show ?thesis using out by (rule complete_drop_columns)
qed

lemma col_take_complete:
  "\<not> col_has_missing c \<Longrightarrow> \<forall>i \<in> set keep. i < col_len c \<Longrightarrow> \<not> col_has_missing (col_take keep c)"
proof (cases c)
  case (NumCol xs)
  assume "\<not> col_has_missing c" "\<forall>i \<in> set keep. i < col_len c"
  with NumCol have "xs ! i \<noteq> None" if "i \<in> set keep" for i
    using that by (metis col_has_missing.simps(1) col_len.simps(1) nth_mem)
  then have "None \<notin> set (map (\<lambda>i. xs ! i) keep)" by (rule None_notin_map)
  with NumCol show ?thesis by (simp add: take_rows_def)
next
  case (ObjCol ss)
  assume "\<not> col_has_missing c" "\<forall>i \<in> set keep. i < col_len c"
  with ObjCol have "ss ! i \<noteq> None" if "i \<in> set keep" for i
    using that by (metis col_has_missing.simps(2) col_len.simps(2) nth_mem)
  then have "None \<notin> set (map (\<lambda>i. ss ! i) keep)" by (rule None_notin_map)
  with ObjCol show ?thesis by (simp add: take_rows_def)
qed

lemma remove_outliers_iqr_complete:
  assumes "wf_df df" "\<not> has_missing df" "remove_outliers_iqr df c = Inr out"
  shows "\<not> has_missing out"
proof -
  from remove_outliers_iqr_Inr [OF assms(3)] obtain xs
    where xs: "map_of (cols df) c = Some (NumCol xs)" by blast
  let ?keep = "filter (\<lambda>i. within_iqr xs (cell_at (NumCol xs) i)) [0..<length xs]"
  from assms(3) have out: "out = \<lparr>idx = take_rows ?keep (idx df),
          cols = map (\<lambda>nc. (fst nc, col_take ?keep (snd nc))) (cols df)\<rparr>"
    unfolding remove_outliers_iqr_numeric [OF xs] by simp
  have n: "length xs = nrows df" using wf_map_of_len [OF assms(1) xs] by simp
  have "\<not> col_has_missing (col_take ?keep (snd nc))" if "nc \<in> set (cols df)" for nc
  proof (rule col_take_complete)
    from assms(2) that show "\<not> col_has_missing (snd nc)" by (auto simp: has_missing_iff)
    from assms(1) that have "col_len (snd nc) = nrows df" by (simp add: wf_df_iff)
    with n show "\<forall>i \<in> set ?keep. i < col_len (snd nc)" by simp
  qed
  then show ?thesis unfolding out by (auto simp: has_missing_iff)
qed

lemma preprocess_training_complete:
  assumes "wf_df df" "categories_observed df"
    and "handle_unknown (ordinal_encoder self) \<noteq> UseEncodedValue None"
    and "preprocess_data est self df True = Inr out"
  shows "\<not> has_missing out"
proof -
  from preprocess_data_training_Inr [OF assms(4)] obtain df1 df2 df3 df4 df5 df6 where
    s: "drop_id df = Inr df1" "knn_impute est df1 25 = Inr df2"
       "encode_categoricals (ordinal_encoder self) df2 = Inr df3" "create_features df3 = Inr df4"
       "remove_outliers_iqr df4 ''milage'' = Inr df5" "remove_outliers_iqr df5 ''price'' = Inr df6"
       "out = reset_index df6"
    by blast
  from wf_drop_id [OF assms(1) s(1)] have wf1: "wf_df df1" by simp
  from categories_observed_drop_id [OF assms(2) s(1)] have co1: "categories_observed df1" .
  from knn_impute_shape [OF wf1 s(2)] have wf2: "wf_df df2" by simp
  have "\<forall>nc \<in> set (cols df2). \<not> is_object (snd nc) \<longrightarrow> \<not> col_has_missing (snd nc)"
    using knn_impute_numeric_complete [OF wf1 co1 s(2)] by blast
  with s(3) assms(3) have c3: "\<not> has_missing df3" by (rule encode_categoricals_complete)
  from encode_categoricals_shape [OF wf2 s(3)] have wf3: "wf_df df3" by simp
  from c3 s(4) have c4: "\<not> has_missing df4" by (rule create_features_complete)
  from create_features_shape [OF wf3 s(4)] have wf4: "wf_df df4" by simp
  from wf4 c4 s(5) have c5: "\<not> has_missing df5" by (rule remove_outliers_iqr_complete)
  from remove_outliers_iqr_shape [OF wf4 s(5)] have wf5: "wf_df df5" by simp
  from wf5 c5 s(6) have "\<not> has_missing df6" by (rule remove_outliers_iqr_complete)
  then show ?thesis unfolding s(7) by (simp add: has_missing_iff reset_index_def)
qed

lemma scaler_transform_complete:
  assumes "None \<notin> set xs" "xs \<noteq> []"
  shows "None \<notin> set (scaler_transform_column (scaler_fit_column xs) xs)"
proof -
  from assms have "observed xs \<noteq> []" by (cases xs) (auto simp: observed_complete)
  then obtain m s where fit: "scaler_fit_column xs = (Some m, Some s)"
    by (simp add: scaler_fit_column_def Let_def)
  have "nan_op (/) (nan_op (-) x (Some m)) (Some s) \<noteq> None" if "x \<in> set xs" for x
    using present_cases [OF that assms(1)] by auto
  then have "None \<notin> set (map (\<lambda>x. nan_op (/) (nan_op (-) x (Some m)) (Some s)) xs)"
    by (rule None_notin_map)
  then show ?thesis
    unfolding fit scaler_transform_column_def by simp
qed

lemma complete_loc_assign:
  "\<not> has_missing df \<Longrightarrow> \<forall>a \<in> set arr. None \<notin> set a \<Longrightarrow> \<not> has_missing (loc_assign df ns arr)"
  by (induction df ns arr rule: loc_assign.induct) (simp_all add: complete_setitem)

lemma prepare_for_training_complete:
  assumes "wf_df df" "categories_observed df"
    and "handle_unknown (ordinal_encoder self) \<noteq> UseEncodedValue None"
    and "prepare_for_training est self df target True = Inr (self', X, y)"
  shows "\<not> has_missing X"
proof -
  from prepare_for_training_Inr [OF assms(4)] obtain p cs params arr where
    pre: "preprocess_data est self df True = Inr p"
    and gi: "getitems p numeric_cols = Inr cs"
    and sc: "scaler_fit_transform (nrows p) cs = Inr (params, arr)"
    and X: "drop_columns (loc_assign p numeric_cols arr) [target] = Inr X"
    by blast
  from preprocess_training_shape [OF assms(1) pre] have wfp: "wf_df p" by simp
  from preprocess_training_complete [OF assms(1-3) pre] have cp: "\<not> has_missing p" .
  from getitems_Inr [OF gi] have
    lcs: "length cs = length numeric_cols"
    and cs: "\<forall>j < length numeric_cols. map_of (cols p) (numeric_cols ! j) = Some (cs ! j)"
    by simp_all
  from scaler_fit_transform_Inr [OF sc] have
    n: "0 < nrows p" and larr: "length arr = length cs"
    and arr: "\<forall>j < length cs. arr ! j =
        scaler_transform_column (scaler_fit_column (encode_for_knn (cs ! j))) (encode_for_knn (cs ! j))"
    by simp_all
  have "None \<notin> set a" if "a \<in> set arr" for a
  proof -
    from that obtain j where j: "j < length cs" and a: "a = arr ! j"
      using larr by (auto simp: in_set_conv_nth)
    let ?col = "encode_for_knn (cs ! j)"
    from cs j lcs have m: "map_of (cols p) (numeric_cols ! j) = Some (cs ! j)" by simp
    with cp have "\<not> col_has_missing (cs ! j)"
      by (auto simp: has_missing_iff dest!: map_of_SomeD)
    then have 1: "None \<notin> set ?col" by (rule encode_no_missing)
    have "length ?col = nrows p"
      using wf_map_of_len [OF wfp m] by (simp add: length_encode_for_knn)
    with n have 2: "?col \<noteq> []" by auto
    from scaler_transform_complete [OF 1 2] arr j a show ?thesis by simp
  qed
  with cp have "\<not> has_missing (loc_assign p numeric_cols arr)"
    by (intro complete_loc_assign) simp_all
  then show ?thesis using X by (rule complete_drop_columns)
qed

section \<open>The round trip of the temporary category codes\<close>

text \<open>
  Claim C9. For a categorical column without missing values, the temporary integer
  encoding of \<open>knn_impute\<close> (the codes of the column's values in the sorted, duplicate-free
  enumeration of its observed categories), followed by the inverse mapping used by
  \<open>knn_impute\<close> (rounding, conversion to integers and the lookup in the same enumeration),
  gives back the original strings unchanged.
\<close>

theorem category_roundtrip:
  "None \<notin> set ss \<Longrightarrow>
     distinct (cat_categories ss)
     \<and> decode_codes (cat_categories ss) (map real_of_int (cat_codes ss)) = ss"
  by (simp add: distinct_cat_categories decode_cat_codes_all)

theorem category_roundtrip_witness:
  "cat_codes [Some ''bmw'', Some ''audi'', Some ''bmw''] = [1, 0, 1]
   \<and> decode_codes (cat_categories [Some ''bmw'', Some ''audi'', Some ''bmw''])
        (map real_of_int (cat_codes [Some ''bmw'', Some ''audi'', Some ''bmw'']))
      = [Some ''bmw'', Some ''audi'', Some ''bmw'']"
proof -
  have codes: "cat_codes [Some ''bmw'', Some ''audi'', Some ''bmw''] = [1, 0, 1]"
    by code_simp
  have "None \<notin> set [Some ''bmw'', Some ''audi'', Some ''bmw'']"
    by simp
  from category_roundtrip [OF this] codes show ?thesis
    by blast
qed

section \<open>\<open>knn_impute\<close> on a table without missing values\<close>

text \<open>
  Claim C8. On a table without missing values \<open>knn_impute\<close> returns the same value in
  every cell, with the columns in the order of the input (the columns of the result are
  those of the input; numeric cells are the same numbers). The call raises ValueError
  exactly when the neighbour count is below 1 or the table has no row or no column, which
  the imputer rejects.
\<close>

theorem knn_impute_no_missing:
  assumes "wf_df df" "\<not> has_missing df"
  shows "knn_impute est df k =
           (if k < 1 \<or> nrows df = 0 \<or> cols df = [] then Inl ValueError
            else Inr \<lparr>idx = range_index (nrows df), cols = cols df\<rparr>)"
proof (cases "k < 1 \<or> nrows df = 0 \<or> cols df = []")
  case True
  then show ?thesis by (simp add: knn_impute_guard)
next
  case False
  let ?M = "map (\<lambda>nc. encode_for_knn (snd nc)) (cols df)"
  have col: "\<not> col_has_missing (snd (cols df ! j)) \<and> 0 < col_len (snd (cols df ! j))"
    if "j < length (cols df)" for j
    using that assms False by (simp add: no_missing_col wf_col_len)
  have nm: "\<forall>j < length (cols df). \<not> all_missing (encode_for_knn (snd (cols df ! j)))"
  proof (intro allI impI)
    fix j assume j: "j < length (cols df)"
    from col [OF j] show "\<not> all_missing (encode_for_knn (snd (cols df ! j)))"
      by (intro not_all_missing encode_no_missing)
         (auto simp: length_encode_for_knn simp flip: length_0_conv)
  qed
  have "map (\<lambda>j. (fst (cols df ! j),
                 restore_column (snd (cols df ! j)) (fill_column est (nat k) ?M j)))
          [0..<length (cols df)] = cols df"
    using col by (intro nth_equalityI) (simp_all add: restore_no_missing)
  with knn_impute_intro [of k df est] False nm show ?thesis by simp
qed

theorem knn_impute_no_missing_witness:
  "knn_impute knn_estimate
     \<lparr>idx = [4, 8, 15],
      cols = [(''brand'', ObjCol [Some ''bmw'', Some ''audi'', Some ''bmw'']),
              (''milage'', NumCol [Some 1000, Some 52000, Some 7])]\<rparr> 25
   = Inr \<lparr>idx = [0, 1, 2],
          cols = [(''brand'', ObjCol [Some ''bmw'', Some ''audi'', Some ''bmw'']),
                  (''milage'', NumCol [Some 1000, Some 52000, Some 7])]\<rparr>"
  using knn_impute_no_missing [of
     "\<lparr>idx = [4, 8, 15],
      cols = [(''brand'', ObjCol [Some ''bmw'', Some ''audi'', Some ''bmw'']),
              (''milage'', NumCol [Some 1000, Some 52000, Some 7])]\<rparr>" knn_estimate 25]
  by (simp add: wf_df_def has_missing_def colnames_def nrows_def range_index_def upt_rec)

section \<open>The feature composer\<close>

text \<open>
  Claim C4. On a table that contains the columns engine, transmission, int_col, ext_col
  and model_year (numeric, as the element-wise products require), \<open>create_features\<close>
  returns a new table in which engine_transmission is the element-wise product of engine
  and transmission, int_ext_color the element-wise product of int_col and ext_col, and
  car_age is 2024 minus model_year (a missing operand gives a missing result); the column
  names of the result are those of the input without the five source columns and with
  the three new ones, and every other column is unchanged. If one of the five columns is
  absent, the call raises KeyError.
\<close>

theorem create_features_contract:
  assumes "wf_df df"
    and "\<forall>n \<in> set source_cols. \<forall>c. map_of (cols df) n = Some c \<longrightarrow> \<not> is_object c"
  shows "(set source_cols \<subseteq> set (colnames df) \<longrightarrow>
           (\<exists>out. create_features df = Inr out
              \<and> wf_df out \<and> idx out = idx df
              \<and> map_of (cols out) ''engine_transmission'' =
                    Some (NumCol (map (\<lambda>(x, y). nan_op (*) x y)
                            (zip (num_values df ''engine'') (num_values df ''transmission''))))
              \<and> map_of (cols out) ''int_ext_color'' =
                    Some (NumCol (map (\<lambda>(x, y). nan_op (*) x y)
                            (zip (num_values df ''int_col'') (num_values df ''ext_col''))))
              \<and> map_of (cols out) ''car_age'' =
                    Some (NumCol (map (\<lambda>x. nan_op (-) (Some 2024) x) (num_values df ''model_year'')))
              \<and> set (colnames out) = (set (colnames df) - set source_cols) \<union> set feature_cols
              \<and> (\<forall>n. n \<notin> set source_cols \<union> set feature_cols \<longrightarrow>
                     map_of (cols out) n = map_of (cols df) n)))
       \<and> (\<not> set source_cols \<subseteq> set (colnames df) \<longrightarrow> create_features df = Inl KeyError)"
proof (intro conjI impI)
  assume "\<not> set source_cols \<subseteq> set (colnames df)"
  with assms(2) show "create_features df = Inl KeyError" by (rule create_features_KeyError)
next
  assume present: "set source_cols \<subseteq> set (colnames df)"
  note c = source_numeric_cases [OF assms(2)]
  from present c [of "''engine''"] obtain e where e: "map_of (cols df) ''engine'' = Some (NumCol e)"
    by (auto simp: source_cols_def in_colnames_iff)
  from present c [of "''transmission''"] obtain t where t: "map_of (cols df) ''transmission'' = Some (NumCol t)"
    by (auto simp: source_cols_def in_colnames_iff)
  from present c [of "''int_col''"] obtain ic where ic: "map_of (cols df) ''int_col'' = Some (NumCol ic)"
    by (auto simp: source_cols_def in_colnames_iff)
  from present c [of "''ext_col''"] obtain ec where ec: "map_of (cols df) ''ext_col'' = Some (NumCol ec)"
    by (auto simp: source_cols_def in_colnames_iff)
  from present c [of "''model_year''"] obtain my where my: "map_of (cols df) ''model_year'' = Some (NumCol my)"
    by (auto simp: source_cols_def in_colnames_iff)
  let ?et = "NumCol (map (\<lambda>(x, y). nan_op (*) x y) (zip e t))"
  let ?ie = "NumCol (map (\<lambda>(x, y). nan_op (*) x y) (zip ic ec))"
  let ?age = "NumCol (map (\<lambda>x. nan_op (-) (Some 2024) x) my)"
  let ?cs = "filter (\<lambda>nc. fst nc \<notin> set [''model_year''])
        (AList.update ''car_age'' ?age
          (filter (\<lambda>nc. fst nc \<notin> set [''engine'', ''transmission'', ''int_col'', ''ext_col''])
            (AList.update ''int_ext_color'' ?ie
              (AList.update ''engine_transmission'' ?et (cols df)))))"
  let ?out = "df\<lparr>cols := ?cs\<rparr>"
  have run: "create_features df = Inr ?out"
    using e t ic ec my by (rule create_features_numeric)
  have lens: "length e = nrows df" "length t = nrows df" "length ic = nrows df"
    "length ec = nrows df" "length my = nrows df"
    using wf_map_of_len [OF assms(1) e] wf_map_of_len [OF assms(1) t]
      wf_map_of_len [OF assms(1) ic] wf_map_of_len [OF assms(1) ec]
      wf_map_of_len [OF assms(1) my] by simp_all
  have lookup: "map_of ?cs n =
      (if n = ''model_year'' then None
       else if n = ''car_age'' then Some ?age
       else if n \<in> set [''engine'', ''transmission'', ''int_col'', ''ext_col''] then None
       else if n = ''int_ext_color'' then Some ?ie
       else if n = ''engine_transmission'' then Some ?et
       else map_of (cols df) n)" for n
    by (simp add: map_of_filter_keep map_of_filter_drop update_conv')
  have wf: "wf_df ?out"
    using assms(1) run by (blast dest: create_features_shape)
  have names: "set (colnames ?out) = (set (colnames df) - set source_cols) \<union> set feature_cols"
  proof -
    have "n \<in> set (colnames ?out) \<longleftrightarrow> n \<in> (set (colnames df) - set source_cols) \<union> set feature_cols" for n
    proof -
      have "n \<in> set (colnames ?out) \<longleftrightarrow> map_of ?cs n \<noteq> None"
        by (simp add: in_colnames_iff)
      also have "\<dots> \<longleftrightarrow> n \<in> (set (colnames df) - set source_cols) \<union> set feature_cols"
        unfolding lookup by (auto simp: source_cols_def feature_cols_def in_colnames_iff)
      finally show ?thesis .
    qed
    then show ?thesis by blast
  qed
  have other: "\<forall>n. n \<notin> set source_cols \<union> set feature_cols \<longrightarrow> map_of (cols ?out) n = map_of (cols df) n"
  proof (intro allI impI)
    fix n assume n: "n \<notin> set source_cols \<union> set feature_cols"
    have "map_of (cols ?out) n = map_of ?cs n" by simp
    also have "\<dots> = map_of (cols df) n"
      unfolding lookup using n by (simp add: source_cols_def feature_cols_def)
    finally show "map_of (cols ?out) n = map_of (cols df) n" .
  qed
  have v_et: "map_of ?cs ''engine_transmission'' = Some ?et"
    unfolding lookup by simp
  have v_ie: "map_of ?cs ''int_ext_color'' = Some ?ie"
    unfolding lookup by simp
  have v_age: "map_of ?cs ''car_age'' = Some ?age"
    unfolding lookup by simp
  show "\<exists>out. create_features df = Inr out
              \<and> wf_df out \<and> idx out = idx df
              \<and> map_of (cols out) ''engine_transmission'' =
                    Some (NumCol (map (\<lambda>(x, y). nan_op (*) x y)
                            (zip (num_values df ''engine'') (num_values df ''transmission''))))
              \<and> map_of (cols out) ''int_ext_color'' =
                    Some (NumCol (map (\<lambda>(x, y). nan_op (*) x y)
                            (zip (num_values df ''int_col'') (num_values df ''ext_col''))))
              \<and> map_of (cols out) ''car_age'' =
                    Some (NumCol (map (\<lambda>x. nan_op (-) (Some 2024) x) (num_values df ''model_year'')))
              \<and> set (colnames out) = (set (colnames df) - set source_cols) \<union> set feature_cols
              \<and> (\<forall>n. n \<notin> set source_cols \<union> set feature_cols \<longrightarrow>
                     map_of (cols out) n = map_of (cols df) n)"
  proof (intro exI conjI)
    show "create_features df = Inr ?out" by (rule run)
    show "wf_df ?out" by (rule wf)
    show "idx ?out = idx df" by simp
    show "set (colnames ?out) = (set (colnames df) - set source_cols) \<union> set feature_cols"
      by (rule names)
    show "\<forall>n. n \<notin> set source_cols \<union> set feature_cols \<longrightarrow> map_of (cols ?out) n = map_of (cols df) n"
      by (rule other)
    show "map_of (cols ?out) ''engine_transmission'' =
            Some (NumCol (map (\<lambda>(x, y). nan_op (*) x y)
                            (zip (num_values df ''engine'') (num_values df ''transmission''))))"
      using v_et by (simp add: num_values_def e t)
    show "map_of (cols ?out) ''int_ext_color'' =
            Some (NumCol (map (\<lambda>(x, y). nan_op (*) x y)
                            (zip (num_values df ''int_col'') (num_values df ''ext_col''))))"
      using v_ie by (simp add: num_values_def ic ec)
    show "map_of (cols ?out) ''car_age'' =
            Some (NumCol (map (\<lambda>x. nan_op (-) (Some 2024) x) (num_values df ''model_year'')))"
      using v_age by (simp add: num_values_def my)
  qed
qed

theorem create_features_contract_witness:
  "create_features ex_encoded
   = Inr \<lparr>idx = [0, 1],
        cols =
          [(''milage'', NumCol [Some 1000, Some 52000]),
           (''engine_transmission'', NumCol [Some 6, None]),
           (''int_ext_color'', NumCol [Some 0, Some 10]),
           (''car_age'', NumCol [Some 4, Some 14])]\<rparr>
   \<and> set (colnames \<lparr>idx = [0, 1],
        cols =
          [(''milage'', NumCol [Some 1000, Some 52000]),
           (''engine_transmission'', NumCol [Some 6, None]),
           (''int_ext_color'', NumCol [Some 0, Some 10]),
           (''car_age'', NumCol [Some 4, Some 14])]\<rparr>)
       = (set (colnames ex_encoded) - set source_cols) \<union> set feature_cols
   \<and> create_features ex_prices = Inl KeyError"
proof -
  have n1: "\<forall>n \<in> set source_cols. \<forall>c. map_of (cols ex_encoded) n = Some c \<longrightarrow> \<not> is_object c"
    by (auto simp: source_cols_def ex_encoded_def)
  have p1: "set source_cols \<subseteq> set (colnames ex_encoded)"
    by (simp add: source_cols_def ex_encoded_def colnames_def)
  have n2: "\<forall>n \<in> set source_cols. \<forall>c. map_of (cols ex_prices) n = Some c \<longrightarrow> \<not> is_object c"
    by (auto simp: source_cols_def ex_prices_def)
  have p2: "\<not> set source_cols \<subseteq> set (colnames ex_prices)"
    by (simp add: source_cols_def ex_prices_def colnames_def)
  from create_features_contract [OF wf_examples(4) n1] p1 ex_encoded_features
  have "set (colnames \<lparr>idx = [0, 1],
        cols =
          [(''milage'', NumCol [Some 1000, Some 52000]),
           (''engine_transmission'', NumCol [Some 6, None]),
           (''int_ext_color'', NumCol [Some 0, Some 10]),
           (''car_age'', NumCol [Some 4, Some 14])]\<rparr>)
       = (set (colnames ex_encoded) - set source_cols) \<union> set feature_cols"
    by auto
  moreover from create_features_contract [OF wf_examples(5) n2] p2
  have "create_features ex_prices = Inl KeyError" by blast
  ultimately show ?thesis using ex_encoded_features by blast
qed

section \<open>The outlier filter\<close>



section \<open>The orchestrator\<close>



text \<open>
  Claim C6. For every input table, \<open>preprocess_data\<close> with \<open>is_training = False\<close> is the
  sequence drop id, imputation, encoding, feature composition, without outlier removal;
  the table it returns has exactly as many rows as the input (and, on a well-formed
  input, every column of the result has that many cells).
\<close>

theorem inference_keeps_rows:
  "preprocess_data est self df False = run_stages (inference_stages est self) df
   \<and> (preprocess_data est self df False = Inr out \<longrightarrow>
        nrows out = nrows df \<and> (wf_df df \<longrightarrow> wf_df out))"
proof (intro conjI impI)
  show "preprocess_data est self df False = run_stages (inference_stages est self) df"
    by (rule preprocess_data_inference)
next
  assume r: "preprocess_data est self df False = Inr out"
  from preprocess_data_inference_Inr [OF r] obtain df1 df2 df3 where
    s: "drop_id df = Inr df1" "knn_impute est df1 25 = Inr df2"
       "encode_categoricals (ordinal_encoder self) df2 = Inr df3" "create_features df3 = Inr out"
    by blast
  have "idx out = idx df3" using s(4) by (rule idx_create_features)
  also have "\<dots> = idx df2" using s(3) by (rule idx_encode_categoricals)
  also have "\<dots> = range_index (nrows df1)" using s(2) by (rule idx_knn_impute)
  finally have "nrows out = nrows df1" by (simp add: nrows_def nrows_range_index)
  also have "\<dots> = nrows df" using s(1) by (simp add: nrows_def idx_drop_id)
  finally show "nrows out = nrows df" .
next
  assume "preprocess_data est self df False = Inr out" "wf_df df"
  then show "wf_df out" by (blast dest: preprocess_inference_shape)
qed

theorem inference_keeps_rows_witness:
  "preprocess_data knn_estimate (DataPreprocessor_init (Some ex_encoder)) ex_query False
   = Inr \<lparr>idx = [0, 1, 2],
        cols =
          [(''brand'', NumCol [Some 1, Some (- 1), Some (- 1)]),
           (''model'', NumCol [Some 3, Some 0, Some 2]),
           (''milage'', NumCol [Some 2000, Some 2500, Some 3000]),
           (''engine_transmission'', NumCol [Some 1, Some 0, Some 0]),
           (''int_ext_color'', NumCol [Some 0, Some 0, Some 0]),
           (''car_age'', NumCol [Some 4, Some 3, Some 6])]\<rparr>
   \<and> nrows \<lparr>idx = [0, 1, 2],
        cols =
          [(''brand'', NumCol [Some 1, Some (- 1), Some (- 1)]),
           (''model'', NumCol [Some 3, Some 0, Some 2]),
           (''milage'', NumCol [Some 2000, Some 2500, Some 3000]),
           (''engine_transmission'', NumCol [Some 1, Some 0, Some 0]),
           (''int_ext_color'', NumCol [Some 0, Some 0, Some 0]),
           (''car_age'', NumCol [Some 4, Some 3, Some 6])]\<rparr> = nrows ex_query
   \<and> nrows ex_query = 3"
proof -
  note r = ex_query_inference
  from inference_keeps_rows [of knn_estimate "DataPreprocessor_init (Some ex_encoder)" ex_query] r
  have "nrows \<lparr>idx = [0, 1, 2],
        cols =
          [(''brand'', NumCol [Some 1, Some (- 1), Some (- 1)]),
           (''model'', NumCol [Some 3, Some 0, Some 2]),
           (''milage'', NumCol [Some 2000, Some 2500, Some 3000]),
           (''engine_transmission'', NumCol [Some 1, Some 0, Some 0]),
           (''int_ext_color'', NumCol [Some 0, Some 0, Some 0]),
           (''car_age'', NumCol [Some 4, Some 3, Some 6])]\<rparr> = nrows ex_query"
    by blast
  moreover have "nrows ex_query = 3" by (simp add: nrows_def ex_query_def)
  ultimately show ?thesis using r by blast
qed

text \<open>
  Claim C10. The table \<open>knn_impute\<close> returns for an input with \<open>n\<close> rows has the fresh
  positional index \<open>0, ..., n - 1\<close>, whatever the index of the input; hence the result of
  \<open>preprocess_data\<close> has a fresh positional index on the inference path too, where no
  index reset is performed.
\<close>

theorem fresh_positional_index:
  "(knn_impute est df k = Inr out \<longrightarrow> idx out = range_index (nrows df))
   \<and> (preprocess_data est self df False = Inr out' \<longrightarrow> idx out' = range_index (nrows df))"
proof (intro conjI impI)
  assume "knn_impute est df k = Inr out"
  then show "idx out = range_index (nrows df)" by (rule idx_knn_impute)
next
  assume "preprocess_data est self df False = Inr out'"
  then obtain df1 df2 df3 where
    s: "drop_id df = Inr df1" "knn_impute est df1 25 = Inr df2"
       "encode_categoricals (ordinal_encoder self) df2 = Inr df3" "create_features df3 = Inr out'"
    by (blast dest: preprocess_data_inference_Inr)
  have "idx out' = idx df3" using s(4) by (rule idx_create_features)
  also have "\<dots> = idx df2" using s(3) by (rule idx_encode_categoricals)
  also have "\<dots> = range_index (nrows df1)" using s(2) by (rule idx_knn_impute)
  also have "nrows df1 = nrows df" using s(1) by (simp add: nrows_def idx_drop_id)
  finally show "idx out' = range_index (nrows df)" .
qed

theorem fresh_positional_index_witness:
  "idx ex_query = [7, 9, 11]
   \<and> knn_impute knn_estimate ex_query 25
   = Inr \<lparr>idx = [0, 1, 2],
        cols =
          [(''brand'', ObjCol [Some ''bmw'', Some ''tesla'', None]),
           (''model'', ObjCol [Some ''x5'', Some ''a4'', Some ''focus'']),
           (''model_year'', NumCol [Some 2020, Some 2021, Some 2018]),
           (''milage'', NumCol [Some 2000, Some 2500, Some 3000]),
           (''engine'', ObjCol [Some ''v8'', Some ''v6'', Some ''v6'']),
           (''transmission'', ObjCol [Some ''manual'', Some ''auto'', Some ''auto'']),
           (''ext_col'', ObjCol [Some ''white'', Some ''black'', Some ''black'']),
           (''int_col'', ObjCol [Some ''beige'', Some ''black'', Some ''black''])]\<rparr>
   \<and> preprocess_data knn_estimate (DataPreprocessor_init (Some ex_encoder)) ex_query False
   = Inr \<lparr>idx = [0, 1, 2],
        cols =
          [(''brand'', NumCol [Some 1, Some (- 1), Some (- 1)]),
           (''model'', NumCol [Some 3, Some 0, Some 2]),
           (''milage'', NumCol [Some 2000, Some 2500, Some 3000]),
           (''engine_transmission'', NumCol [Some 1, Some 0, Some 0]),
           (''int_ext_color'', NumCol [Some 0, Some 0, Some 0]),
           (''car_age'', NumCol [Some 4, Some 3, Some 6])]\<rparr>
   \<and> range_index (nrows ex_query) = [0, 1, 2]"
proof -
  have i: "idx ex_query = [7, 9, 11]" by (simp add: ex_query_def)
  from fresh_positional_index [of knn_estimate ex_query 25 _ "DataPreprocessor_init (Some ex_encoder)"]
    ex_query_imputed
  have "[0, 1, 2] = range_index (nrows ex_query)" by fastforce
  with i ex_query_imputed ex_query_inference show ?thesis by simp
qed

section \<open>Missing values in the result of \<open>knn_impute\<close>\<close>

text \<open>
  Claim C1 says that the table \<open>knn_impute\<close> returns has the column set of the input and
  no missing value in any column, numeric or categorical. The column names are those of
  the input and the numeric columns are complete, but a missing categorical value stays
  missing (\<open>knn_impute_has_missing\<close>): its temporary code is \<open>-1\<close>, which the imputer
  takes for a value, and the inverse mapping has no category for \<open>-1\<close>. The theorem
  evaluates \<open>knn_impute\<close> with 25 neighbours on a table of two rows whose column brand
  has a missing value in the second row: the result still has it, whatever estimate the
  imputer uses.
\<close>

theorem knn_impute_leaves_missing_category:
  "knn_impute est
     \<lparr>idx = [0, 1],
      cols = [(''milage'', NumCol [Some 10, Some 20]), (''brand'', ObjCol [Some ''audi'', None])]\<rparr> 25
   = Inr \<lparr>idx = [0, 1],
          cols = [(''milage'', NumCol [Some 10, Some 20]), (''brand'', ObjCol [Some ''audi'', None])]\<rparr>
   \<and> has_missing \<lparr>idx = [0, 1],
          cols = [(''milage'', NumCol [Some 10, Some 20]), (''brand'', ObjCol [Some ''audi'', None])]\<rparr>"
  by (simp add: knn_impute_def knn_fit_transform_def bind_err_def nrows_def all_missing_def
        fill_column_def cat_codes_def cat_categories_def observed_def decode_codes_def
        np_round_def range_index_def upt_rec has_missing_def nth_Cons')

section \<open>Unseen categories\<close>

text \<open>
  Claim C5, as amended. When the encoder in use is fitted on as many columns as the table
  has categorical columns (and under their names, if it recorded names) and is configured
  with \<^verbatim>\<open>handle_unknown='use_encoded_value', unknown_value=-1\<close>, the encoding step of
  \<open>preprocess_data\<close> does not raise and encodes every value that is not among the
  categories seen at fit as \<open>-1\<close>. The fallback encoder, which replaces the persisted
  encoder whenever loading it fails, has this configuration, and it is not fitted.
\<close>

theorem unseen_category_sentinel:
  assumes "wf_df df"
    and "categories_fit (ordinal_encoder self) = Some cats"
    and "handle_unknown (ordinal_encoder self) = UseEncodedValue (Some (- 1))"
    and "feature_names_in (ordinal_encoder self) = None
         \<or> feature_names_in (ordinal_encoder self) = Some (object_names df)"
    and "length cats = length (object_names df)"
    and "map_of (cols df) n = Some (ObjCol ss)"
    and "i < length ss"
    and "astype_str (ObjCol ss) ! i \<notin> set (cats ! index_of n (object_names df))"
  shows "(\<exists>out ys. encode_categoricals (ordinal_encoder self) df = Inr out
             \<and> map_of (cols out) n = Some (NumCol ys) \<and> ys ! i = Some (- 1))
         \<and> ordinal_encoder (DataPreprocessor_init None) = fallback_encoder
         \<and> handle_unknown fallback_encoder = UseEncodedValue (Some (- 1))
         \<and> categories_fit fallback_encoder = None"
proof -
  let ?enc = "ordinal_encoder self"
  let ?cat = "filter (\<lambda>nc. is_object (snd nc)) (cols df)"
  let ?X = "map (\<lambda>nc. astype_str (snd nc)) ?cat"
  let ?arr = "map (\<lambda>(cs, x). map (encode_value (UseEncodedValue (Some (- 1))) cs) x) (zip cats ?X)"
  let ?j = "index_of n (object_names df)"
  have d: "distinct (map fst (cols df))" using assms(1) by (simp add: wf_df_iff)
  from object_column_index [OF d assms(6)]
  have j: "?j < length ?cat" and cj: "?cat ! ?j = (n, ObjCol ss)"
    by (simp_all add: object_names_def)
  from j have ne: "length ?cat > 0" by linarith
  have len: "length cats = length ?X" using assms(5) by (simp add: object_names_def)
  have tr: "encoder_transform ?enc (map fst ?cat) ?X = Inr ?arr"
    using assms(2,3) assms(4) len
    by (intro encoder_transform_sentinel) (simp_all add: object_names_def)
  have run: "encode_categoricals ?enc df = Inr (df\<lparr>cols := assign_encoded (cols df) ?arr\<rparr>)"
    using ne by (simp add: encode_categoricals_def tr bind_err_Inr)
  have "map_of (assign_encoded (cols df) ?arr) n = Some (NumCol (?arr ! ?j))"
    unfolding object_names_def using d assms(6) len
    by (intro map_of_assign_encoded) simp_all
  moreover have "?arr ! ?j = map (encode_value (UseEncodedValue (Some (- 1))) (cats ! ?j)) (astype_str (ObjCol ss))"
    using j cj len by simp
  moreover have "map (encode_value (UseEncodedValue (Some (- 1))) (cats ! ?j)) (astype_str (ObjCol ss)) ! i
      = Some (- 1)"
    using assms(7,8) by (simp add: encode_value_def)
  ultimately have "\<exists>out ys. encode_categoricals ?enc df = Inr out
             \<and> map_of (cols out) n = Some (NumCol ys) \<and> ys ! i = Some (- 1)"
    using run by simp
  then show ?thesis
    by (simp add: DataPreprocessor_init_def fallback_encoder_def)
qed

theorem unseen_category_sentinel_witness:
  "encode_categoricals (ordinal_encoder (DataPreprocessor_init (Some ex_encoder))) ex_query
   = Inr \<lparr>idx = [7, 9, 11],
        cols =
          [(''brand'', NumCol [Some 1, Some (- 1), Some (- 1)]),
           (''model'', NumCol [Some 3, Some 0, Some 2]),
           (''model_year'', NumCol [Some 2020, Some 2021, Some 2018]),
           (''milage'', NumCol [Some 2000, None, Some 3000]),
           (''engine'', NumCol [Some 1, Some 0, Some 0]),
           (''transmission'', NumCol [Some 1, Some 0, Some 0]),
           (''ext_col'', NumCol [Some 1, Some 0, Some 0]),
           (''int_col'', NumCol [Some 0, Some 1, Some 1])]\<rparr>
   \<and> ''tesla'' \<notin> set [''audi'', ''bmw'', ''ford'']
   \<and> (\<exists>out ys. encode_categoricals (ordinal_encoder (DataPreprocessor_init (Some ex_encoder))) ex_query = Inr out
          \<and> map_of (cols out) ''brand'' = Some (NumCol ys) \<and> ys ! 1 = Some (- 1))
   \<and> handle_unknown (ordinal_encoder (DataPreprocessor_init None)) = UseEncodedValue (Some (- 1))"
proof -
  let ?self = "DataPreprocessor_init (Some ex_encoder)"
  let ?cats = "[[''audi'', ''bmw'', ''ford''], [''a4'', ''f150'', ''focus'', ''x5''], [''v6'', ''v8''],
                [''auto'', ''manual''], [''black'', ''white''], [''beige'', ''black'']]"
  have names: "object_names ex_query = [''brand'', ''model'', ''engine'', ''transmission'', ''ext_col'', ''int_col'']"
    by (simp add: object_names_def ex_query_def)
  have a2: "categories_fit (ordinal_encoder ?self) = Some ?cats"
    by (simp add: DataPreprocessor_init_def ex_encoder_def)
  have a3: "handle_unknown (ordinal_encoder ?self) = UseEncodedValue (Some (- 1))"
    by (simp add: DataPreprocessor_init_def ex_encoder_def)
  have a4: "feature_names_in (ordinal_encoder ?self) = None
         \<or> feature_names_in (ordinal_encoder ?self) = Some (object_names ex_query)"
    by (simp add: names DataPreprocessor_init_def ex_encoder_def)
  have a5: "length ?cats = length (object_names ex_query)"
    by (simp add: names)
  have a6: "map_of (cols ex_query) ''brand'' = Some (ObjCol [Some ''bmw'', Some ''tesla'', None])"
    by (simp add: ex_query_def)
  have a7: "1 < length [Some ''bmw'', Some ''tesla'', None]" by simp
  have a8: "astype_str (ObjCol [Some ''bmw'', Some ''tesla'', None]) ! 1
              \<notin> set (?cats ! index_of ''brand'' (object_names ex_query))"
    by (simp add: names)
  from unseen_category_sentinel [OF wf_examples(2) a2 a3 a4 a5 a6 a7 a8]
  have "(\<exists>out ys. encode_categoricals (ordinal_encoder ?self) ex_query = Inr out
          \<and> map_of (cols out) ''brand'' = Some (NumCol ys) \<and> ys ! 1 = Some (- 1))
     \<and> handle_unknown (ordinal_encoder (DataPreprocessor_init None)) = UseEncodedValue (Some (- 1))"
    by simp
  moreover have "''tesla'' \<notin> set [''audi'', ''bmw'', ''ford'']" by simp
  ultimately show ?thesis using ex_query_encoded by blast
qed

theorem unseen_category_counterexample:
  "''tesla'' \<notin> set [''audi'', ''bmw'', ''ford'']
   \<and> categories_fit (ordinal_encoder (DataPreprocessor_init (Some ex_strict_encoder)))
       = Some [[''audi'', ''bmw'', ''ford''], [''a4'', ''f150'', ''focus'', ''x5''], [''v6'', ''v8''],
               [''auto'', ''manual''], [''black'', ''white''], [''beige'', ''black'']]
   \<and> preprocess_data knn_estimate (DataPreprocessor_init (Some ex_strict_encoder)) ex_query False
       = Inl ValueError
   \<and> preprocess_data knn_estimate (DataPreprocessor_init None) ex_query False
       = Inl NotFittedError"
  by code_simp

section \<open>Scaling and the split into features and target\<close>

text \<open>
  Claim C7. When \<open>prepare_for_training\<close> with target price and \<open>scale_features = True\<close>
  returns the pair \<open>(X, y)\<close> for a training table, \<open>X\<close> has no column price, \<open>y\<close> is the
  column price of the processed table (with its index, which is also the index of \<open>X\<close>),
  and in each of the columns brand, model, milage, int_ext_color and engine_transmission
  of \<open>X\<close> the values sum to zero over the returned rows, of which there is at least one:
  the mean of the column is zero. No cell of \<open>X\<close> is missing when every categorical
  column of the input has an observed value and the encoder's code for unknown values is
  a number. Numbers are exact here, so the mean is exactly zero.
\<close>

theorem prepare_for_training_contract:
  assumes "wf_df df"
    and "prepare_for_training est self df ''price'' True = Inr (self', X, y)"
  shows "''price'' \<notin> set (colnames X)
     \<and> (\<exists>p. preprocess_data est self df True = Inr p
              \<and> map_of (cols p) ''price'' = Some (snd y) \<and> fst y = idx p)
     \<and> fst y = idx X \<and> 0 < nrows X
     \<and> (\<forall>c \<in> set numeric_cols. \<exists>xs.
            map_of (cols X) c = Some (NumCol xs) \<and> length xs = nrows X
          \<and> sum_list (observed xs) = 0
          \<and> (None \<notin> set xs \<longrightarrow> mean_list (map the xs) = 0))
     \<and> (categories_observed df \<and> handle_unknown (ordinal_encoder self) \<noteq> UseEncodedValue None
          \<longrightarrow> \<not> has_missing X)"
proof -
  from prepare_for_training_Inr [OF assms(2)] obtain p cs params arr ycol where
    pre: "preprocess_data est self df True = Inr p"
    and gi: "getitems p numeric_cols = Inr cs"
    and sc: "scaler_fit_transform (nrows p) cs = Inr (params, arr)"
    and X: "drop_columns (loc_assign p numeric_cols arr) [''price''] = Inr X"
    and ycol: "getitem (loc_assign p numeric_cols arr) ''price'' = Inr ycol"
    and y: "y = (idx (loc_assign p numeric_cols arr), ycol)"
    by blast
  let ?s = "loc_assign p numeric_cols arr"
  from preprocess_training_shape [OF assms(1) pre] have wfp: "wf_df p" by simp
  from getitems_Inr [OF gi] have
    lcs: "length cs = length numeric_cols"
    and cs: "\<forall>j < length numeric_cols. map_of (cols p) (numeric_cols ! j) = Some (cs ! j)"
    by simp_all
  from scaler_fit_transform_Inr [OF sc] have
    n: "0 < nrows p" and larr: "length arr = length cs"
    and arr: "\<forall>j < length cs. arr ! j =
        scaler_transform_column (scaler_fit_column (encode_for_knn (cs ! j))) (encode_for_knn (cs ! j))"
    by simp_all
  have dist: "distinct numeric_cols" by (simp add: numeric_cols_def)
  have nX: "nrows X = nrows p"
    using X by (simp add: nrows_def idx_drop_columns idx_loc_assign)
  have c1: "''price'' \<notin> set (colnames X)"
    using map_of_drop_columns [OF X, of "''price''"] by (simp add: in_colnames_iff)
  have "map_of (cols ?s) ''price'' = Some ycol" using ycol by (rule getitem_Inr)
  moreover have "map_of (cols ?s) ''price'' = map_of (cols p) ''price''"
    by (rule map_of_loc_assign_other) (simp add: numeric_cols_def)
  ultimately have c2: "\<exists>p. preprocess_data est self df True = Inr p
              \<and> map_of (cols p) ''price'' = Some (snd y) \<and> fst y = idx p"
    using pre y by (simp add: idx_loc_assign)
  have c3: "fst y = idx X" using y X by (simp add: idx_drop_columns)
  have c4: "\<exists>xs. map_of (cols X) c = Some (NumCol xs) \<and> length xs = nrows X
          \<and> sum_list (observed xs) = 0
          \<and> (None \<notin> set xs \<longrightarrow> mean_list (map the xs) = 0)"
    if "c \<in> set numeric_cols" for c
  proof -
    from that obtain j where j: "j < length numeric_cols" and c: "c = numeric_cols ! j"
      by (auto simp: in_set_conv_nth)
    let ?xs = "arr ! j"
    let ?col = "encode_for_knn (cs ! j)"
    from that have "c \<noteq> ''price''" by (auto simp: numeric_cols_def)
    then have "map_of (cols X) c = map_of (cols ?s) c"
      using map_of_drop_columns [OF X, of c] by simp
    also have "\<dots> = Some (NumCol ?xs)"
      unfolding c using dist larr lcs j by (intro map_of_loc_assign) simp_all
    finally have m: "map_of (cols X) c = Some (NumCol ?xs)" .
    have xs: "?xs = scaler_transform_column (scaler_fit_column ?col) ?col"
      using arr j lcs by simp
    have "length ?xs = col_len (cs ! j)"
      unfolding xs by (simp add: length_scaler_transform_column length_encode_for_knn)
    also have "\<dots> = nrows p"
      using wfp cs j by (blast intro: wf_map_of_len)
    finally have len: "length ?xs = nrows X" using nX by simp
    have zero: "sum_list (observed ?xs) = 0"
      unfolding xs by (rule scaled_sum_zero)
    have "mean_list (map the ?xs) = 0" if "None \<notin> set ?xs"
      using zero observed_complete [OF that] by (simp add: mean_list_def)
    with m len zero show ?thesis by blast
  qed
  have c5: "\<not> has_missing X"
    if "categories_observed df \<and> handle_unknown (ordinal_encoder self) \<noteq> UseEncodedValue None"
    using prepare_for_training_complete [OF assms(1) _ _ assms(2)] that by blast
  from c1 c2 c3 c4 c5 n nX show ?thesis by simp
qed

theorem prepare_for_training_contract_witness:
  "prepare_for_training knn_estimate (DataPreprocessor_init (Some ex_encoder)) ex_pair ''price'' True
   = Inr (\<lparr>ordinal_encoder = ex_encoder,
           scaler = Some [(Some 1, Some 1), (Some 1, Some 1), (Some 1001, Some 1),
                          (Some 0, Some 1), (Some 1, Some 1)]\<rparr>,
          \<lparr>idx = [0, 1],
           cols =
             [(''brand'', NumCol [Some (- 1), Some 1]),
              (''model'', NumCol [Some (- 1), Some 1]),
              (''milage'', NumCol [Some (- 1), Some 1]),
              (''engine_transmission'', NumCol [Some 0, Some 0]),
              (''int_ext_color'', NumCol [Some 1, Some (- 1)]),
              (''car_age'', NumCol [Some 5, Some 3])]\<rparr>,
          ([0, 1], NumCol [Some 10000, Some 30000]))
   \<and> ''price'' \<notin> set (colnames \<lparr>idx = [0, 1],
           cols =
             [(''brand'', NumCol [Some (- 1), Some 1]),
              (''model'', NumCol [Some (- 1), Some 1]),
              (''milage'', NumCol [Some (- 1), Some 1]),
              (''engine_transmission'', NumCol [Some 0, Some 0]),
              (''int_ext_color'', NumCol [Some 1, Some (- 1)]),
              (''car_age'', NumCol [Some 5, Some 3])]\<rparr>)
   \<and> mean_list (map the [Some (- 1), Some 1]) = 0
   \<and> mean_list (map the [Some 0, Some (0::real)]) = 0
   \<and> mean_list (map the [Some 1, Some (- 1)]) = 0"
proof -
  let ?X = "\<lparr>idx = [0, 1],
           cols =
             [(''brand'', NumCol [Some (- 1), Some 1]),
              (''model'', NumCol [Some (- 1), Some 1]),
              (''milage'', NumCol [Some (- 1), Some 1]),
              (''engine_transmission'', NumCol [Some 0, Some 0]),
              (''int_ext_color'', NumCol [Some 1, Some (- 1)]),
              (''car_age'', NumCol [Some 5, Some 3])]\<rparr>"
  note c = prepare_for_training_contract [OF wf_examples(3) ex_pair_prepared]
  from c have 1: "''price'' \<notin> set (colnames ?X)" by blast
  from c have all: "\<forall>c \<in> set numeric_cols. \<exists>xs.
            map_of (cols ?X) c = Some (NumCol xs) \<and> length xs = nrows ?X
          \<and> sum_list (observed xs) = 0
          \<and> (None \<notin> set xs \<longrightarrow> mean_list (map the xs) = 0)" by blast
  from all have 2: "mean_list (map the [Some (- 1), Some 1]) = 0"
    by (auto simp: numeric_cols_def)
  from all have 3: "mean_list (map the [Some 0, Some (0::real)]) = 0"
    by (auto simp: numeric_cols_def)
  from all have 4: "mean_list (map the [Some 1, Some (- 1)]) = 0"
    by (auto simp: numeric_cols_def)
  from ex_pair_prepared 1 2 3 4 show ?thesis by blast
qed

end
